theory Spec2Isabelle
  imports Main "HOL-Library.Sublist"
begin

section \<open>The queue processor of Autowhisker (src/App.tsx)\<close>

text \<open>
  The component \<open>App\<close> keeps a queue of prompts and generates one image per prompt by
  calling a local server. This theory embeds the state of the component, its handlers and
  its processing loop, and settles the properties of the queue processor on them.

  Conventions of the embedding.
  \<^item> Strings are byte lists. \<open>String.prototype.trim\<close> also strips the Unicode spaces
    beyond ASCII; only the six ASCII ones are modelled.
  \<^item> The field \<open>id\<close> of a queue item is called \<open>itemId\<close> here (\<open>id\<close> is HOL's identity
    function). \<open>crypto.randomUUID()\<close> returns a fresh identifier at every call; it is
    modelled by a counter, \<open>nextUuid\<close>, so identifiers are natural numbers.
  \<^item> An optional field (\<open>imageUrl?\<close>, \<open>errorMsg?\<close>, \<open>isEditing?\<close>) is an \<open>option\<close>;
    \<open>undefined\<close> is \<open>None\<close>.
  \<^item> JavaScript runs one callback at a time. Every handler, timer callback and
    continuation of an \<open>await\<close> is one atomic step of the model; React applies the queued
    state updaters in order and runs the effects before the next callback.
  \<^item> What the outside world answers (the clock, the server's responses) is an argument of
    the step that receives it.
\<close>

subsection \<open>Data\<close>

datatype status = Pending | Processing | Done | Error | Paused

record QueueItem =
  itemId :: nat
  prompt :: string
  status :: status
  imageUrl :: "string option"
  errorMsg :: "string option"
  timestamp :: string
  isEditing :: "bool option"

text \<open>
  The state of the component that the processor uses (lines 23-69), followed by the
  callbacks that are scheduled and not yet run: the 100 ms timeouts of \<open>handleStart\<close>
  and of the two retry handlers, the 2000 ms timeouts of \<open>processNext\<close>, and the
  invocations of \<open>processNext\<close> that wait for the answer of \<open>/api/generate\<close>, each with
  the item it took (\<open>nextItem\<close>), or for the answer of \<open>/api/images\<close> inside
  \<open>fetchLatestImageFor\<close>, each with the id it looks up.
\<close>

record app =
  cookie :: string
  aspectRatio :: string
  promptsInput :: string
  queue :: "QueueItem list"
  isProcessing :: bool
  isPaused :: bool
  processingRef :: bool
  pausedRef :: bool
  nextUuid :: nat
  startTimers :: nat
  retryTimers :: nat
  nextTimers :: nat
  awaiting :: "QueueItem list"
  looking :: "nat list"

text \<open>
  The answer of \<open>/api/generate\<close> as \<open>processNext\<close> reads it: \<open>data.success\<close> is truthy and
  \<open>data.result?.url\<close> is the argument; or \<open>data.success\<close> is falsy and \<open>data.error\<close> is the
  argument; or \<open>fetch\<close> or \<open>res.json()\<close> threw an error whose \<open>message\<close> is the argument.
\<close>

datatype response = Success "string option" | Failure "string option" | Thrown "string option"

text \<open>
  The answer of \<open>GET /api/images\<close> as \<open>fetchLatestImageFor\<close> reads it: the urls of the
  files, newest first, or an exception.
\<close>

datatype listing = Files "string list" | ListingThrown

text \<open>The answer of \<open>DELETE /api/images\<close>: \<open>data.success\<close> truthy, falsy, or an exception.\<close>

datatype deletion = Deleted | NotDeleted | DeletionThrown

subsection \<open>Strings\<close>

definition newline :: char where
  "newline = CHR 0x0A"

text \<open>\<open>s.split('\n')\<close>: the empty string gives one empty line.\<close>

fun split_nl :: "string \<Rightarrow> string list" where
  "split_nl [] = [[]]"
| "split_nl (c # cs) =
     (if c = newline then [] # split_nl cs
      else (case split_nl cs of
              [] \<Rightarrow> [[c]]
            | l # ls \<Rightarrow> (c # l) # ls))"

definition isSpace :: "char \<Rightarrow> bool" where
  "isSpace c = (c = CHR '' '' \<or> c = CHR 0x09 \<or> c = CHR 0x0A \<or> c = CHR 0x0B
                \<or> c = CHR 0x0C \<or> c = CHR 0x0D)"

definition trim :: "string \<Rightarrow> string" where
  "trim s = rev (dropWhile isSpace (rev (dropWhile isSpace s)))"

text \<open>\<open>v || d\<close> on an optional string: \<open>undefined\<close> and the empty string are falsy.\<close>

definition orElse :: "string option \<Rightarrow> string \<Rightarrow> string" where
  "orElse v d = (case v of None \<Rightarrow> d | Some s \<Rightarrow> if s = [] then d else s)"

subsection \<open>Updaters of the queue\<close>

definition hasPending :: "QueueItem list \<Rightarrow> bool" where
  "hasPending q = list_ex (\<lambda>i. status i = Pending) q"

text \<open>
  The updater of lines 346-357 and the value its promise resolves to: the first pending
  item, as it was before the update, and the queue with every item of that id marked
  \<open>processing\<close>.
\<close>

definition claimNext :: "QueueItem list \<Rightarrow> QueueItem list \<times> QueueItem option" where
  "claimNext prevQueue =
     (case find (\<lambda>item. status item = Pending) prevQueue of
        Some pending \<Rightarrow>
          (map (\<lambda>item. if itemId item = itemId pending
                        then item\<lparr>status := Processing\<rparr> else item) prevQueue,
           Some pending)
      | None \<Rightarrow> (prevQueue, None))"

text \<open>The updaters of lines 383-392 (an answer arrived) and 401-403 (an exception).\<close>

definition writeBack :: "QueueItem \<Rightarrow> response \<Rightarrow> QueueItem list \<Rightarrow> QueueItem list" where
  "writeBack nextItem data prev =
     map (\<lambda>item.
            if itemId item = itemId nextItem then
              (case data of
                 Success url \<Rightarrow>
                   item\<lparr>status := Done, imageUrl := Some (orElse url ''check_gallery'')\<rparr>
               | Failure err \<Rightarrow> item\<lparr>status := Error, errorMsg := err\<rparr>
               | Thrown msg \<Rightarrow>
                   item\<lparr>status := Error, errorMsg := Some (orElse msg ''Network Error'')\<rparr>)
            else item) prev"

text \<open>\<open>fetchLatestImageFor\<close> (lines 412-425): an exception is swallowed.\<close>

definition fetchLatestImageFor :: "nat \<Rightarrow> listing \<Rightarrow> QueueItem list \<Rightarrow> QueueItem list" where
  "fetchLatestImageFor i files prev =
     (case files of
        Files (latest # _) \<Rightarrow>
          map (\<lambda>item. if itemId item = i \<and> status item = Done
                       then item\<lparr>imageUrl := Some latest\<rparr> else item) prev
      | Files [] \<Rightarrow> prev
      | ListingThrown \<Rightarrow> prev)"

subsection \<open>Handlers\<close>

text \<open>The two effects of lines 72-78, run after a render.\<close>

definition syncRefs :: "app \<Rightarrow> app" where
  "syncRefs st = st\<lparr>processingRef := isProcessing st, pausedRef := isPaused st\<rparr>"

definition newItems :: "nat \<Rightarrow> string \<Rightarrow> string list \<Rightarrow> QueueItem list" where
  "newItems uuid now ls =
     map (\<lambda>(k, line). \<lparr>itemId = uuid + k, prompt = trim line, status = Pending,
                        imageUrl = None, errorMsg = None, timestamp = now,
                        isEditing = None\<rparr>) (enumerate 0 ls)"

text \<open>
  \<open>handleStart\<close> (lines 81-121) up to the scheduling of its timeout; \<open>now\<close> is the reading
  of the clock. The two alerts leave the state as it is.
\<close>

definition handleStart :: "string \<Rightarrow> app \<Rightarrow> app" where
  "handleStart now st =
     (if cookie st = [] then st
      else
        let ls = filter (\<lambda>line. length (trim line) > 0) (split_nl (promptsInput st)) in
        if length ls = 0 \<and> \<not> hasPending (queue st) then st
        else
          let st1 = (if length ls > 0
                     then st\<lparr>queue := queue st @ newItems (nextUuid st) now ls,
                             nextUuid := nextUuid st + length ls,
                             promptsInput := []\<rparr>
                     else st)
          in st1\<lparr>isPaused := False, pausedRef := False,
                 startTimers := startTimers st1 + 1\<rparr>)"

definition handlePause :: "app \<Rightarrow> app" where
  "handlePause st = st\<lparr>isPaused := True, isProcessing := False\<rparr>"

definition handleStop :: "app \<Rightarrow> app" where
  "handleStop st = st\<lparr>isProcessing := False, isPaused := False, processingRef := False\<rparr>"

definition startEditingPrompt :: "nat \<Rightarrow> app \<Rightarrow> app" where
  "startEditingPrompt i st =
     st\<lparr>queue := map (\<lambda>item. if itemId item = i then item\<lparr>isEditing := Some True\<rparr> else item)
                      (queue st)\<rparr>"

definition savePromptEdit :: "nat \<Rightarrow> string \<Rightarrow> app \<Rightarrow> app" where
  "savePromptEdit i newPrompt st =
     st\<lparr>queue := map (\<lambda>item. if itemId item = i
                              then item\<lparr>prompt := newPrompt, isEditing := Some False\<rparr>
                              else item) (queue st)\<rparr>"

definition cancelEditingPrompt :: "nat \<Rightarrow> app \<Rightarrow> app" where
  "cancelEditingPrompt i st =
     st\<lparr>queue := map (\<lambda>item. if itemId item = i then item\<lparr>isEditing := Some False\<rparr> else item)
                      (queue st)\<rparr>"

text \<open>
  \<open>retrySingleItem\<close> (lines 197-209) and \<open>retryAllErrors\<close> (lines 212-224) up to the
  scheduling of their timeout, which is decided here, before the timeout.
\<close>

definition retrySingleItem :: "nat \<Rightarrow> app \<Rightarrow> app" where
  "retrySingleItem i st =
     (let st1 = st\<lparr>queue := map (\<lambda>item. if itemId item = i
                                        then item\<lparr>status := Pending, errorMsg := None\<rparr>
                                        else item) (queue st)\<rparr>
      in if \<not> processingRef st1 then st1\<lparr>retryTimers := retryTimers st1 + 1\<rparr> else st1)"

definition retryAllErrors :: "app \<Rightarrow> app" where
  "retryAllErrors st =
     (let st1 = st\<lparr>queue := map (\<lambda>item. if status item = Error
                                        then item\<lparr>status := Pending, errorMsg := None\<rparr>
                                        else item) (queue st)\<rparr>
      in if \<not> processingRef st1 then st1\<lparr>retryTimers := retryTimers st1 + 1\<rparr> else st1)"

text \<open>
  \<open>handleClearAll\<close> (lines 298-333): \<open>confirmed\<close> is the answer to the dialog and \<open>data\<close>
  the answer of the server; nothing changes before that answer arrives. The two updaters
  of lines 312 and 325 are applied in this order.
\<close>

definition handleClearAll :: "bool \<Rightarrow> deletion \<Rightarrow> app \<Rightarrow> app" where
  "handleClearAll confirmed data st =
     (if \<not> confirmed then st
      else case data of
        Deleted \<Rightarrow>
          st\<lparr>queue :=
               filter (\<lambda>item. status item \<noteq> Done)
                 (map (\<lambda>item. item\<lparr>imageUrl := None,
                                   status := (if status item = Done then Pending
                                              else status item)\<rparr>) (queue st))\<rparr>
      | NotDeleted \<Rightarrow> st
      | DeletionThrown \<Rightarrow> st)"

subsection \<open>The processing loop\<close>

text \<open>
  \<open>processNext\<close> (lines 340-364) up to the call of \<open>fetch\<close>: the two gates, the claim, and
  the end of the loop when nothing is pending.
\<close>

definition processNext :: "app \<Rightarrow> app" where
  "processNext st =
     (if \<not> processingRef st then st
      else if pausedRef st then st
      else case claimNext (queue st) of
             (q, Some nextItem) \<Rightarrow> st\<lparr>queue := q, awaiting := awaiting st @ [nextItem]\<rparr>
           | (q, None) \<Rightarrow> st\<lparr>queue := q, isProcessing := False\<rparr>)"

text \<open>The callback of the timeout of \<open>handleStart\<close> (lines 114-120).\<close>

definition startTimeout :: "app \<Rightarrow> app" where
  "startTimeout st =
     (if \<not> processingRef st
      then processNext (st\<lparr>isProcessing := True, processingRef := True\<rparr>)
      else st)"

text \<open>The callback of the timeout of the retry handlers (lines 203-207 and 218-222).\<close>

definition retryTimeout :: "app \<Rightarrow> app" where
  "retryTimeout st = processNext (st\<lparr>isProcessing := True, processingRef := True\<rparr>)"

text \<open>
  \<open>processNext\<close> from the answer of \<open>/api/generate\<close> on (lines 379-409), for the \<open>k\<close>-th
  waiting invocation: the answer is written back; after a success the invocation asks for
  the list of images, otherwise it schedules the next round.
\<close>

definition generateReturns :: "nat \<Rightarrow> response \<Rightarrow> app \<Rightarrow> app" where
  "generateReturns k data st =
     (if k < length (awaiting st) then
        let nextItem = awaiting st ! k;
            st1 = st\<lparr>queue := writeBack nextItem data (queue st),
                     awaiting := take k (awaiting st) @ drop (Suc k) (awaiting st)\<rparr>
        in (case data of
              Success url \<Rightarrow> st1\<lparr>looking := looking st1 @ [itemId nextItem]\<rparr>
            | Failure err \<Rightarrow> st1\<lparr>nextTimers := nextTimers st1 + 1\<rparr>
            | Thrown msg \<Rightarrow> st1\<lparr>nextTimers := nextTimers st1 + 1\<rparr>)
      else st)"

text \<open>
  The answer of \<open>/api/images\<close> for the \<open>k\<close>-th invocation that waits inside
  \<open>fetchLatestImageFor\<close>, and the scheduling of the next round (lines 406-409).
\<close>

definition imagesReturn :: "nat \<Rightarrow> listing \<Rightarrow> app \<Rightarrow> app" where
  "imagesReturn k files st =
     (if k < length (looking st)
      then st\<lparr>queue := fetchLatestImageFor (looking st ! k) files (queue st),
              looking := take k (looking st) @ drop (Suc k) (looking st),
              nextTimers := nextTimers st + 1\<rparr>
      else st)"

subsection \<open>The component as a transition system\<close>

datatype event =
    ClickStart string
  | ClickPause
  | ClickStop
  | ClickRetry nat
  | ClickRetryAll
  | StartEdit nat
  | SaveEdit nat string
  | CancelEdit nat
  | ClickClearAll bool deletion
  | TypePrompts string
  | TypeCookie string
  | StartTimeout
  | RetryTimeout
  | NextTimeout
  | GenerateReturns nat response
  | ImagesReturn nat listing

text \<open>
  The controls as they are rendered (lines 664-790): the retry button of an item is shown
  while its status is \<open>error\<close>, a prompt can be opened for editing while its status is
  \<open>error\<close> or \<open>pending\<close>, and the edit is saved or cancelled from the input that is shown
  while \<open>isEditing\<close> is set.
\<close>

definition retryShown :: "nat \<Rightarrow> QueueItem list \<Rightarrow> bool" where
  "retryShown i q = list_ex (\<lambda>item. itemId item = i \<and> status item = Error) q"

definition editShown :: "nat \<Rightarrow> QueueItem list \<Rightarrow> bool" where
  "editShown i q =
     list_ex (\<lambda>item. itemId item = i \<and> (status item = Error \<or> status item = Pending)) q"

definition inputShown :: "nat \<Rightarrow> QueueItem list \<Rightarrow> bool" where
  "inputShown i q = list_ex (\<lambda>item. itemId item = i \<and> isEditing item = Some True) q"

text \<open>
  One step: the callback of the event, then the render and its effects. A click needs its
  control on the screen, a timeout fires only when it was scheduled, and an answer arrives
  only for an invocation that waits for it.
\<close>

definition step :: "event \<Rightarrow> app \<Rightarrow> app" where
  "step e st = syncRefs
     (case e of
        ClickStart now \<Rightarrow> handleStart now st
      | ClickPause \<Rightarrow> handlePause st
      | ClickStop \<Rightarrow> handleStop st
      | ClickRetry i \<Rightarrow> (if retryShown i (queue st) then retrySingleItem i st else st)
      | ClickRetryAll \<Rightarrow> retryAllErrors st
      | StartEdit i \<Rightarrow> (if editShown i (queue st) then startEditingPrompt i st else st)
      | SaveEdit i p \<Rightarrow> (if inputShown i (queue st) then savePromptEdit i p st else st)
      | CancelEdit i \<Rightarrow> (if inputShown i (queue st) then cancelEditingPrompt i st else st)
      | ClickClearAll confirmed data \<Rightarrow> handleClearAll confirmed data st
      | TypePrompts s \<Rightarrow> st\<lparr>promptsInput := s\<rparr>
      | TypeCookie s \<Rightarrow> st\<lparr>cookie := s\<rparr>
      | StartTimeout \<Rightarrow>
          (if startTimers st > 0 then startTimeout (st\<lparr>startTimers := startTimers st - 1\<rparr>)
           else st)
      | RetryTimeout \<Rightarrow>
          (if retryTimers st > 0 then retryTimeout (st\<lparr>retryTimers := retryTimers st - 1\<rparr>)
           else st)
      | NextTimeout \<Rightarrow>
          (if nextTimers st > 0 then processNext (st\<lparr>nextTimers := nextTimers st - 1\<rparr>)
           else st)
      | GenerateReturns k data \<Rightarrow> generateReturns k data st
      | ImagesReturn k files \<Rightarrow> imagesReturn k files st)"

fun run :: "event list \<Rightarrow> app \<Rightarrow> app" where
  "run [] st = st"
| "run (e # es) st = run es (step e st)"

text \<open>The component as it is mounted, with a cookie and a text of prompts typed in.\<close>

definition initial :: "string \<Rightarrow> string \<Rightarrow> app" where
  "initial c input =
     \<lparr>cookie = c, aspectRatio = ''LANDSCAPE'', promptsInput = input, queue = [],
      isProcessing = False, isPaused = False, processingRef = False, pausedRef = False,
      nextUuid = 0, startTimers = 0, retryTimers = 0, nextTimers = 0, awaiting = [], looking = []\<rparr>"

subsection \<open>Letting the loop run\<close>

text \<open>
  The event loop while the user does nothing: every scheduled callback runs, until none
  is left. The server answers \<open>/api/generate\<close> by \<open>generate\<close>, from the cookie, the prompt
  and the aspect ratio of the request, and \<open>/api/images\<close> by \<open>images\<close>, for the id that is
  looked up. The request of \<open>processNext\<close> carries the cookie and the aspect ratio of the
  render whose handler started the loop; \<open>drain\<close> reads them from the state, which is the
  same as long as neither was changed since that click, and no callback changes them.
\<close>

definition pendingCount :: "QueueItem list \<Rightarrow> nat" where
  "pendingCount q = length (filter (\<lambda>item. status item = Pending) q)"

definition work :: "app \<Rightarrow> nat" where
  "work st = 4 * pendingCount (queue st) + 3 * length (awaiting st) + 2 * length (looking st)
             + nextTimers st + startTimers st + retryTimers st"

function drain :: "(string \<Rightarrow> string \<Rightarrow> string \<Rightarrow> response) \<Rightarrow> (nat \<Rightarrow> listing) \<Rightarrow> app \<Rightarrow> app" where
  "drain generate images st =
     (if startTimers st > 0 then drain generate images (step StartTimeout st)
      else if retryTimers st > 0 then drain generate images (step RetryTimeout st)
      else case awaiting st of
        nextItem # _ \<Rightarrow>
          drain generate images
            (step (GenerateReturns 0 (generate (cookie st) (prompt nextItem) (aspectRatio st))) st)
      | [] \<Rightarrow>
          (case looking st of
             i # _ \<Rightarrow> drain generate images (step (ImagesReturn 0 (images i)) st)
           | [] \<Rightarrow>
               if nextTimers st > 0 then drain generate images (step NextTimeout st)
               else st))"
  by pat_completeness auto

text \<open>
  Every callback that \<open>drain\<close> runs lowers \<open>work\<close>: a claim turns a pending item into a
  waiting invocation, an answer turns a waiting invocation into a timeout or a lookup, and
  no updater of the loop makes an item pending.
\<close>

lemma filter_map_le:
  "(\<And>x. P (f x) \<Longrightarrow> P x) \<Longrightarrow> length (filter P (map f xs)) \<le> length (filter P xs)"
  by (induction xs) (auto simp: le_Suc_eq)

lemma filter_map_less:
  "(\<And>x. P (f x) \<Longrightarrow> P x) \<Longrightarrow> x \<in> set xs \<Longrightarrow> P x \<Longrightarrow> \<not> P (f x)
     \<Longrightarrow> length (filter P (map f xs)) < length (filter P xs)"
proof (induction xs)
  case Nil
  then show ?case by simp
next
  case (Cons a xs)
  have le: "length (filter P (map f xs)) \<le> length (filter P xs)"
    using Cons.prems(1) by (rule filter_map_le)
  show ?case
  proof (cases "x = a")
    case True
    with Cons.prems le show ?thesis by simp
  next
    case False
    with Cons.prems have "x \<in> set xs" by simp
    with Cons have "length (filter P (map f xs)) < length (filter P xs)" by blast
    then show ?thesis using Cons.prems(1)[of a] by auto
  qed
qed

lemma pendingCount_writeBack: "pendingCount (writeBack n d q) \<le> pendingCount q"
  unfolding pendingCount_def writeBack_def
  by (rule filter_map_le) (auto split: response.splits if_splits)

lemma pendingCount_fetchLatest: "pendingCount (fetchLatestImageFor i f q) \<le> pendingCount q"
proof (cases f)
  case (Files us)
  show ?thesis
  proof (cases us)
    case Nil
    with Files show ?thesis by (simp add: fetchLatestImageFor_def)
  next
    case (Cons u vs)
    have "length (filter (\<lambda>item. status item = Pending)
            (map (\<lambda>item. if itemId item = i \<and> status item = Done
                          then item\<lparr>imageUrl := Some u\<rparr> else item) q))
          \<le> length (filter (\<lambda>item. status item = Pending) q)"
      by (rule filter_map_le) (simp split: if_splits)
    with Files Cons show ?thesis
      by (simp add: fetchLatestImageFor_def pendingCount_def)
  qed
next
  case ListingThrown
  then show ?thesis by (simp add: fetchLatestImageFor_def)
qed

lemma claimNext_None: "snd (claimNext q) = None \<Longrightarrow> fst (claimNext q) = q"
  by (auto simp: claimNext_def split: option.splits)

lemma claimNext_Some:
  assumes "claimNext q = (q', Some p)"
  shows "pendingCount q' < pendingCount q"
proof -
  from assms have f: "find (\<lambda>item. status item = Pending) q = Some p"
    and q': "q' = map (\<lambda>item. if itemId item = itemId p then item\<lparr>status := Processing\<rparr> else item) q"
    by (auto simp: claimNext_def split: option.splits)
  from f have "p \<in> set q" "status p = Pending"
    by (auto simp: find_Some_iff)
  then show ?thesis
    unfolding pendingCount_def q'
    by (intro filter_map_less[where x = p]) (auto split: if_splits)
qed

lemma work_processNext: "work (processNext st) \<le> work st"
  using claimNext_Some[of "queue st"] claimNext_None[of "queue st"]
  by (auto simp: processNext_def work_def split: prod.splits option.splits)

lemma work_syncRefs: "work (syncRefs st) = work st"
  by (simp add: work_def syncRefs_def)

lemma work_generateReturns:
  "awaiting st \<noteq> [] \<Longrightarrow> work (generateReturns 0 d st) < work st"
  using pendingCount_writeBack[of "awaiting st ! 0" d "queue st"]
  by (cases "awaiting st") (auto simp: generateReturns_def work_def Let_def split: response.splits)

lemma work_imagesReturn:
  "looking st \<noteq> [] \<Longrightarrow> work (imagesReturn 0 f st) < work st"
  using pendingCount_fetchLatest[of "looking st ! 0" f "queue st"]
  by (cases "looking st") (auto simp: imagesReturn_def work_def)

lemma work_startTimeout:
  "work (startTimeout st) \<le> work st"
  using work_processNext[of "st\<lparr>isProcessing := True, processingRef := True\<rparr>"]
  by (simp add: startTimeout_def work_def)

lemma work_retryTimeout:
  "work (retryTimeout st) \<le> work st"
  using work_processNext[of "st\<lparr>isProcessing := True, processingRef := True\<rparr>"]
  by (simp add: retryTimeout_def work_def)

lemma work_step_StartTimeout: "0 < startTimers st \<Longrightarrow> work (step StartTimeout st) < work st"
proof -
  assume "0 < startTimers st"
  then have "work (st\<lparr>startTimers := startTimers st - 1\<rparr>) < work st"
    by (simp add: work_def)
  with work_startTimeout[of "st\<lparr>startTimers := startTimers st - 1\<rparr>"]
  have "work (startTimeout (st\<lparr>startTimers := startTimers st - 1\<rparr>)) < work st"
    by (rule le_less_trans)
  with \<open>0 < startTimers st\<close> show ?thesis
    by (simp add: step_def work_syncRefs)
qed

lemma work_step_RetryTimeout: "0 < retryTimers st \<Longrightarrow> work (step RetryTimeout st) < work st"
proof -
  assume "0 < retryTimers st"
  then have "work (st\<lparr>retryTimers := retryTimers st - 1\<rparr>) < work st"
    by (simp add: work_def)
  with work_retryTimeout[of "st\<lparr>retryTimers := retryTimers st - 1\<rparr>"]
  have "work (retryTimeout (st\<lparr>retryTimers := retryTimers st - 1\<rparr>)) < work st"
    by (rule le_less_trans)
  with \<open>0 < retryTimers st\<close> show ?thesis
    by (simp add: step_def work_syncRefs)
qed

lemma work_step_NextTimeout: "0 < nextTimers st \<Longrightarrow> work (step NextTimeout st) < work st"
proof -
  assume "0 < nextTimers st"
  then have "work (st\<lparr>nextTimers := nextTimers st - 1\<rparr>) < work st"
    by (simp add: work_def)
  with work_processNext[of "st\<lparr>nextTimers := nextTimers st - 1\<rparr>"]
  have "work (processNext (st\<lparr>nextTimers := nextTimers st - 1\<rparr>)) < work st"
    by (rule le_less_trans)
  with \<open>0 < nextTimers st\<close> show ?thesis
    by (simp add: step_def work_syncRefs)
qed

lemma work_step_GenerateReturns:
  "awaiting st \<noteq> [] \<Longrightarrow> work (step (GenerateReturns 0 d) st) < work st"
  by (simp add: step_def work_syncRefs work_generateReturns)

lemma work_step_ImagesReturn:
  "looking st \<noteq> [] \<Longrightarrow> work (step (ImagesReturn 0 f) st) < work st"
  by (simp add: step_def work_syncRefs work_imagesReturn)

termination drain
  by (relation "measure (\<lambda>(generate, images, st). work st)")
     (simp_all add: work_step_StartTimeout work_step_RetryTimeout work_step_NextTimeout
        work_step_GenerateReturns work_step_ImagesReturn)

section \<open>Properties\<close>

subsection \<open>One job at a time\<close>

definition twoPrompts :: app where
  "twoPrompts = initial ''c'' (''a'' @ [newline] @ ''b'')"

text \<open>
  C1 (at most one item is \<open>processing\<close>) fails on the code. Two prompts are started; the
  loop takes the first one and waits for the server. The user pauses and starts again:
  \<open>handlePause\<close> has cleared \<open>isProcessing\<close>, so the timeout of \<open>handleStart\<close> finds
  \<open>processingRef\<close> unset and calls \<open>processQueue\<close> a second time, while the first invocation
  still waits. The second invocation takes the second prompt: both items are
  \<open>processing\<close>, and two requests are in flight.
\<close>

theorem two_processing_after_pause_and_start:
  "map status (queue (run [ClickStart ''t'', StartTimeout, ClickPause, ClickStart ''t'',
      StartTimeout] twoPrompts)) = [Processing, Processing]
   \<and> map prompt (awaiting (run [ClickStart ''t'', StartTimeout, ClickPause, ClickStart ''t'',
      StartTimeout] twoPrompts)) = [''a'', ''b'']"
  by code_simp

subsection \<open>Start\<close>

text \<open>
  C10: when the cookie is empty, or when no line of the input has anything but white space
  (in particular when every line is empty) and no item is pending, \<open>handleStart\<close> returns
  before it creates an item, touches \<open>isPaused\<close> or schedules its timeout: the state is the
  one before the click.
\<close>

theorem handleStart_rejected:
  assumes "cookie st = [] \<or>
           ((\<forall>line \<in> set (split_nl (promptsInput st)). trim line = []) \<and>
            \<not> hasPending (queue st))"
  shows "handleStart now st = st \<and> step (ClickStart now) st = syncRefs st"
proof (cases "cookie st = []")
  case True
  then show ?thesis by (simp add: handleStart_def step_def)
next
  case False
  with assms have blank: "\<forall>line \<in> set (split_nl (promptsInput st)). trim line = []"
    and none: "\<not> hasPending (queue st)" by auto
  from blank have "filter (\<lambda>line. length (trim line) > 0) (split_nl (promptsInput st)) = []"
    by (simp add: filter_empty_conv)
  with none show ?thesis by (simp add: handleStart_def step_def)
qed

theorem handleStart_rejected_witness:
  "map trim (split_nl (promptsInput (initial ''c'' ([CHR '' ''] @ [newline])))) = [[], []] \<and>
   \<not> hasPending (queue (initial ''c'' ([CHR '' ''] @ [newline]))) \<and>
   handleStart ''t'' (initial ''c'' ([CHR '' ''] @ [newline]))
     = initial ''c'' ([CHR '' ''] @ [newline])"
proof -
  have m: "map trim (split_nl (promptsInput (initial ''c'' ([CHR '' ''] @ [newline])))) = [[], []]"
    by (simp add: initial_def newline_def trim_def isSpace_def)
  then have h: "\<forall>line \<in> set (split_nl (promptsInput (initial ''c'' ([CHR '' ''] @ [newline])))).
                  trim line = []"
    by (simp add: initial_def newline_def trim_def isSpace_def)
  have p: "\<not> hasPending (queue (initial ''c'' ([CHR '' ''] @ [newline])))"
    by (simp add: initial_def hasPending_def)
  from m h p show ?thesis
    using handleStart_rejected [of "initial ''c'' ([CHR '' ''] @ [newline])" "''t''"] by simp
qed

subsection \<open>Retry and Clear All\<close>

definition doneItem :: QueueItem where
  "doneItem = \<lparr>itemId = 7, prompt = ''a cat'', status = Done,
     imageUrl = Some ''http://localhost:5000/output/1.png'', errorMsg = None,
     timestamp = ''t'', isEditing = None\<rparr>"

definition oneDone :: app where
  "oneDone = (initial ''c'' [])\<lparr>queue := [doneItem], nextUuid := 8\<rparr>"

text \<open>
  C3 as it is stated fails: \<open>retrySingleItem\<close> does not look at the status of the item. On
  a queue whose only item is \<open>done\<close>, the item becomes \<open>pending\<close>.
\<close>

theorem retrySingleItem_done_counterexample:
  "status doneItem = Done \<and> queue oneDone = [doneItem] \<and>
   queue (retrySingleItem 7 oneDone) = [doneItem\<lparr>status := Pending\<rparr>]"
  by (simp add: retrySingleItem_def oneDone_def doneItem_def initial_def)

text \<open>
  C3, amended: \<open>retrySingleItem i\<close> keeps the length of the queue, sets every item whose id
  is \<open>i\<close> to \<open>pending\<close> without an error message, whatever its status was, and leaves the
  items of other ids as they are. The restriction to items in error is the caller's: the
  retry button is rendered for such items only, so a click for an id that has no item in
  error changes nothing.
\<close>

theorem retrySingleItem_any_status:
  "length (queue (retrySingleItem i st)) = length (queue st) \<and>
   (\<forall>k < length (queue st).
      queue (retrySingleItem i st) ! k =
        (if itemId (queue st ! k) = i
         then (queue st ! k)\<lparr>status := Pending, errorMsg := None\<rparr>
         else queue st ! k)) \<and>
   (\<not> retryShown i (queue st) \<longrightarrow> step (ClickRetry i) st = syncRefs st)"
  by (simp add: retrySingleItem_def Let_def step_def)

theorem retrySingleItem_any_status_witness:
  "0 < length (queue oneDone) \<and>
   queue (retrySingleItem 7 oneDone) ! 0 = doneItem\<lparr>status := Pending, errorMsg := None\<rparr> \<and>
   step (ClickRetry 7) oneDone = syncRefs oneDone"
proof -
  have l: "0 < length (queue oneDone)" and q: "queue oneDone ! 0 = doneItem"
    and n: "\<not> retryShown 7 (queue oneDone)"
    by (simp_all add: oneDone_def doneItem_def initial_def retryShown_def)
  from l q n show ?thesis
    using retrySingleItem_any_status [of 7 oneDone] by (simp add: doneItem_def)
qed

text \<open>
  The first updater of \<open>handleClearAll\<close> turns every \<open>done\<close> item into a \<open>pending\<close> one, so
  the filter of the second updater finds nothing to remove.
\<close>

lemma clearAll_removes_nothing:
  "queue (handleClearAll True Deleted st) =
     map (\<lambda>item. item\<lparr>imageUrl := None,
                       status := (if status item = Done then Pending else status item)\<rparr>)
       (queue st)"
  by (simp add: handleClearAll_def filter_id_conv)

text \<open>
  C5 (after a successful Clear All the \<open>done\<close> items are removed) fails on the code, against
  the comment of line 327 ("Remove all Done items from the UI list as they are no longer
  on disk"): the item that was \<open>done\<close> is still in the queue, as a \<open>pending\<close> item without an
  image, and the next run of the loop generates it again.
\<close>

theorem clearAll_keeps_done_items:
  "queue (handleClearAll True Deleted oneDone)
     = [doneItem\<lparr>imageUrl := None, status := Pending\<rparr>]"
  by (simp add: handleClearAll_def oneDone_def doneItem_def initial_def)

subsection \<open>A successful generation\<close>

definition onePrompt :: app where
  "onePrompt = run [ClickStart ''t'', StartTimeout] (initial ''c'' ''a cat'')"

lemma onePrompt_eval:
  "onePrompt = \<lparr>cookie = ''c'', aspectRatio = ''LANDSCAPE'', promptsInput = [],
      queue = [\<lparr>itemId = 0, prompt = ''a cat'', status = Processing, imageUrl = None,
                errorMsg = None, timestamp = ''t'', isEditing = None\<rparr>],
      isProcessing = True, isPaused = False, processingRef = True, pausedRef = False,
      nextUuid = 1, startTimers = 0, retryTimers = 0, nextTimers = 0,
      awaiting = [\<lparr>itemId = 0, prompt = ''a cat'', status = Pending, imageUrl = None,
                   errorMsg = None, timestamp = ''t'', isEditing = None\<rparr>],
      looking = []\<rparr>"
  unfolding onePrompt_def by code_simp

lemma fetchLatestImageFor_Cons:
  "fetchLatestImageFor i (Files (latest # older)) q =
     map (\<lambda>item. if itemId item = i \<and> status item = Done
                  then item\<lparr>imageUrl := Some latest\<rparr> else item) q"
  by (simp add: fetchLatestImageFor_def)

lemma fetchLatestImageFor_none:
  "fetchLatestImageFor i (Files []) q = q" "fetchLatestImageFor i ListingThrown q = q"
  by (simp_all add: fetchLatestImageFor_def)

lemma map_if_field:
  "(\<And>x. P x \<Longrightarrow> g (f x) = g x) \<Longrightarrow> map g (map (\<lambda>x. if P x then f x else x) q) = map g q"
  by (induction q) simp_all

lemma fetchLatestImageFor_status:
  "map status (fetchLatestImageFor i files q) = map status q"
proof (cases files)
  case (Files us)
  then show ?thesis
    by (cases us) (simp_all add: fetchLatestImageFor_none fetchLatestImageFor_Cons map_if_field
                     del: map_map)
next
  case ListingThrown
  then show ?thesis by (simp add: fetchLatestImageFor_none)
qed

lemma fetchLatestImageFor_errorMsg:
  "map errorMsg (fetchLatestImageFor i files q) = map errorMsg q"
proof (cases files)
  case (Files us)
  then show ?thesis
    by (cases us) (simp_all add: fetchLatestImageFor_none fetchLatestImageFor_Cons map_if_field
                     del: map_map)
next
  case ListingThrown
  then show ?thesis by (simp add: fetchLatestImageFor_none)
qed

lemma fetchLatestImageFor_itemId:
  "map itemId (fetchLatestImageFor i files q) = map itemId q"
proof (cases files)
  case (Files us)
  then show ?thesis
    by (cases us) (simp_all add: fetchLatestImageFor_none fetchLatestImageFor_Cons map_if_field
                     del: map_map)
next
  case ListingThrown
  then show ?thesis by (simp add: fetchLatestImageFor_none)
qed

lemma fetchLatest_attaches:
  assumes "item \<in> set (fetchLatestImageFor i (Files (latest # older)) q)"
    and "itemId item = i" and "status item = Done"
  shows "imageUrl item = Some latest"
proof -
  from assms(1) obtain x where x: "x \<in> set q"
    and item: "item = (if itemId x = i \<and> status x = Done
                       then x\<lparr>imageUrl := Some latest\<rparr> else x)"
    unfolding fetchLatestImageFor_Cons by auto
  show ?thesis
  proof (cases "itemId x = i \<and> status x = Done")
    case True
    with item show ?thesis by simp
  next
    case False
    with item have "item = x" by simp
    with assms(2,3) False show ?thesis by simp
  qed
qed

lemma writeBack_Success:
  assumes "item \<in> set (writeBack nextItem (Success url) q)"
    and "itemId item = itemId nextItem"
  shows "status item = Done \<and> imageUrl item = Some (orElse url ''check_gallery'')"
proof -
  from assms(1) obtain x where x: "x \<in> set q"
    and item: "item = (if itemId x = itemId nextItem
                       then x\<lparr>status := Done, imageUrl := Some (orElse url ''check_gallery'')\<rparr>
                       else x)"
    unfolding writeBack_def by auto
  show ?thesis
  proof (cases "itemId x = itemId nextItem")
    case True
    with item show ?thesis by simp
  next
    case False
    with item have "item = x" by simp
    with assms(2) False show ?thesis by simp
  qed
qed

lemma generateReturns_Success:
  "k < length (awaiting st) \<Longrightarrow>
      queue (generateReturns k (Success url) st)
        = writeBack (awaiting st ! k) (Success url) (queue st) \<and>
      looking (generateReturns k (Success url) st) = looking st @ [itemId (awaiting st ! k)]"
  by (simp add: generateReturns_def Let_def)

text \<open>
  C4 as it is stated fails: the lookup of the latest image is started after every success
  (line 395 tests \<open>data.success\<close> only), also when the server returned a url. Here the
  server returns \<open>u1\<close>, the item is \<open>done\<close> with \<open>u1\<close>, the lookup is pending all the same, and
  its answer replaces \<open>u1\<close> by the newest file of the listing, \<open>u2\<close>.
\<close>

theorem lookup_overwrites_returned_url_counterexample:
  "looking (run [GenerateReturns 0 (Success (Some ''u1''))] onePrompt) = [0] \<and>
   map imageUrl (queue (run [GenerateReturns 0 (Success (Some ''u1''))] onePrompt))
     = [Some ''u1''] \<and>
   map imageUrl (queue (run [GenerateReturns 0 (Success (Some ''u1'')),
                             ImagesReturn 0 (Files [''u2''])] onePrompt)) = [Some ''u2'']"
  unfolding onePrompt_def by code_simp

text \<open>
  C4, amended. After a success the items of the claimed id are \<open>done\<close> with the url that was
  returned, or with \<open>check_gallery\<close> when none was, and the lookup of the latest image is
  started whether or not a url was returned. Its answer sets the url of the items of that
  id that are still \<open>done\<close> to the first file of a listing that has one; an empty listing or
  an exception leaves the queue as it is; in no case does it change a status, an error
  message or an id.
\<close>

theorem success_is_written_back_then_looked_up:
  "(k < length (awaiting st) \<longrightarrow>
      queue (generateReturns k (Success url) st)
        = writeBack (awaiting st ! k) (Success url) (queue st) \<and>
      looking (generateReturns k (Success url) st) = looking st @ [itemId (awaiting st ! k)]) \<and>
   (\<forall>item \<in> set (writeBack nextItem (Success url) q).
      itemId item = itemId nextItem \<longrightarrow>
        status item = Done \<and> imageUrl item = Some (orElse url ''check_gallery'')) \<and>
   (\<forall>item \<in> set (fetchLatestImageFor i (Files (latest # older)) q).
      itemId item = i \<and> status item = Done \<longrightarrow> imageUrl item = Some latest) \<and>
   fetchLatestImageFor i (Files []) q = q \<and>
   fetchLatestImageFor i ListingThrown q = q \<and>
   map status (fetchLatestImageFor i files q) = map status q \<and>
   map errorMsg (fetchLatestImageFor i files q) = map errorMsg q \<and>
   map itemId (fetchLatestImageFor i files q) = map itemId q"
proof (intro conjI)
  show "k < length (awaiting st) \<longrightarrow>
      queue (generateReturns k (Success url) st)
        = writeBack (awaiting st ! k) (Success url) (queue st) \<and>
      looking (generateReturns k (Success url) st) = looking st @ [itemId (awaiting st ! k)]"
    using generateReturns_Success [of k st url] by (rule impI)
  show "\<forall>item \<in> set (writeBack nextItem (Success url) q).
      itemId item = itemId nextItem \<longrightarrow>
        status item = Done \<and> imageUrl item = Some (orElse url ''check_gallery'')"
    using writeBack_Success [of _ nextItem url q] by (intro ballI impI)
  show "\<forall>item \<in> set (fetchLatestImageFor i (Files (latest # older)) q).
      itemId item = i \<and> status item = Done \<longrightarrow> imageUrl item = Some latest"
    using fetchLatest_attaches [of _ i latest older q] by (intro ballI impI) (elim conjE)
  show "fetchLatestImageFor i (Files []) q = q" "fetchLatestImageFor i ListingThrown q = q"
    by (rule fetchLatestImageFor_none)+
  show "map status (fetchLatestImageFor i files q) = map status q"
    by (rule fetchLatestImageFor_status)
  show "map errorMsg (fetchLatestImageFor i files q) = map errorMsg q"
    by (rule fetchLatestImageFor_errorMsg)
  show "map itemId (fetchLatestImageFor i files q) = map itemId q"
    by (rule fetchLatestImageFor_itemId)
qed
theorem success_is_written_back_then_looked_up_witness:
  "0 < length (awaiting onePrompt) \<and>
   looking (generateReturns 0 (Success (Some ''u1'')) onePrompt) = [0] \<and>
   writeBack (awaiting onePrompt ! 0) (Success None) (queue onePrompt)
     = [\<lparr>itemId = 0, prompt = ''a cat'', status = Done, imageUrl = Some ''check_gallery'',
         errorMsg = None, timestamp = ''t'', isEditing = None\<rparr>] \<and>
   map status (fetchLatestImageFor 0 (Files [''u2''])
       (writeBack (awaiting onePrompt ! 0) (Success None) (queue onePrompt))) = [Done]"
proof -
  have l: "0 < length (awaiting onePrompt)"
    and i: "itemId (awaiting onePrompt ! 0) = 0" and e: "looking onePrompt = []"
    by (simp_all add: onePrompt_eval)
  have w: "writeBack (awaiting onePrompt ! 0) (Success None) (queue onePrompt)
             = [\<lparr>itemId = 0, prompt = ''a cat'', status = Done,
                 imageUrl = Some ''check_gallery'', errorMsg = None, timestamp = ''t'',
                 isEditing = None\<rparr>]"
    by (simp add: onePrompt_eval writeBack_def orElse_def)
  have "looking (generateReturns 0 (Success (Some ''u1'')) onePrompt) = [0] \<and>
        map status (fetchLatestImageFor 0 (Files [''u2''])
          (writeBack (awaiting onePrompt ! 0) (Success None) (queue onePrompt)))
        = map status (writeBack (awaiting onePrompt ! 0) (Success None) (queue onePrompt))"
    using success_is_written_back_then_looked_up
      [of 0 onePrompt "Some ''u1''" "awaiting onePrompt ! 0"
          "writeBack (awaiting onePrompt ! 0) (Success None) (queue onePrompt)" 0 "''u2''" "[]"
          "Files [''u2'']"] l i e
    by simp
  with l w show ?thesis by simp
qed

subsection \<open>Order of the queue\<close>

lemma find_first:
  "list_all (\<lambda>x. \<not> P x) pre \<Longrightarrow> P p \<Longrightarrow> find P (pre @ p # post) = Some p"
  by (induction pre) auto

lemma claimNext_first:
  assumes q: "q = pre @ p # post"
    and pre: "list_all (\<lambda>item. status item \<noteq> Pending) pre"
    and p: "status p = Pending"
  shows "snd (claimNext q) = Some p"
    and "fst (claimNext q) ! length pre = p\<lparr>status := Processing\<rparr>"
    and "map itemId (fst (claimNext q)) = map itemId q"
proof -
  from pre p have f: "find (\<lambda>item. status item = Pending) q = Some p"
    unfolding q by (intro find_first) simp_all
  then have c: "claimNext q =
      (map (\<lambda>item. if itemId item = itemId p then item\<lparr>status := Processing\<rparr> else item) q,
       Some p)"
    by (simp add: claimNext_def)
  show "snd (claimNext q) = Some p" by (simp add: c)
  have "length pre < length q" by (simp add: q)
  then show "fst (claimNext q) ! length pre = p\<lparr>status := Processing\<rparr>"
    by (simp add: c) (simp add: q)
  show "map itemId (fst (claimNext q)) = map itemId q"
    by (simp add: c map_if_field del: map_map)
qed

lemma retry_itemId:
  "map itemId (queue (retrySingleItem i st)) = map itemId (queue st)"
  "map itemId (queue (retryAllErrors st)) = map itemId (queue st)"
  by (simp_all add: retrySingleItem_def retryAllErrors_def Let_def map_if_field del: map_map)

lemma retry_nth:
  assumes "k < length (queue st)" and "status (queue st ! k) = Error"
  shows "itemId (queue st ! k) = i \<longrightarrow>
           queue (retrySingleItem i st) ! k = (queue st ! k)\<lparr>status := Pending, errorMsg := None\<rparr>"
    and "queue (retryAllErrors st) ! k = (queue st ! k)\<lparr>status := Pending, errorMsg := None\<rparr>"
  using assms by (simp_all add: retrySingleItem_def retryAllErrors_def Let_def)

text \<open>
  C6: the claim step takes the first pending item of the queue, whatever stands before it
  (no item before it is pending, so they are processing, done or in error), and marks it
  at its place; \<open>retrySingleItem\<close> and \<open>retryAllErrors\<close> keep the sequence of ids, and an item
  in error becomes pending at the index where it stood.
\<close>

theorem first_pending_is_claimed_and_retry_keeps_place:
  "(q = pre @ p # post \<and> list_all (\<lambda>item. status item \<noteq> Pending) pre \<and> status p = Pending
      \<longrightarrow> snd (claimNext q) = Some p \<and>
          fst (claimNext q) ! length pre = p\<lparr>status := Processing\<rparr> \<and>
          map itemId (fst (claimNext q)) = map itemId q) \<and>
   map itemId (queue (retrySingleItem i st)) = map itemId (queue st) \<and>
   map itemId (queue (retryAllErrors st)) = map itemId (queue st) \<and>
   (\<forall>k < length (queue st).
      status (queue st ! k) = Error \<longrightarrow>
        (itemId (queue st ! k) = i \<longrightarrow>
           queue (retrySingleItem i st) ! k
             = (queue st ! k)\<lparr>status := Pending, errorMsg := None\<rparr>) \<and>
        queue (retryAllErrors st) ! k = (queue st ! k)\<lparr>status := Pending, errorMsg := None\<rparr>)"
proof (intro conjI)
  show "q = pre @ p # post \<and> list_all (\<lambda>item. status item \<noteq> Pending) pre \<and> status p = Pending
      \<longrightarrow> snd (claimNext q) = Some p \<and>
          fst (claimNext q) ! length pre = p\<lparr>status := Processing\<rparr> \<and>
          map itemId (fst (claimNext q)) = map itemId q"
  proof (intro impI, elim conjE)
    assume q: "q = pre @ p # post"
      and pre: "list_all (\<lambda>item. status item \<noteq> Pending) pre" and p: "status p = Pending"
    from claimNext_first [OF q pre p]
    show "snd (claimNext q) = Some p \<and>
          fst (claimNext q) ! length pre = p\<lparr>status := Processing\<rparr> \<and>
          map itemId (fst (claimNext q)) = map itemId q"
      by (intro conjI)
  qed
  show "map itemId (queue (retrySingleItem i st)) = map itemId (queue st)"
    "map itemId (queue (retryAllErrors st)) = map itemId (queue st)"
    by (rule retry_itemId)+
  show "\<forall>k < length (queue st).
      status (queue st ! k) = Error \<longrightarrow>
        (itemId (queue st ! k) = i \<longrightarrow>
           queue (retrySingleItem i st) ! k
             = (queue st ! k)\<lparr>status := Pending, errorMsg := None\<rparr>) \<and>
        queue (retryAllErrors st) ! k = (queue st ! k)\<lparr>status := Pending, errorMsg := None\<rparr>"
  proof (intro allI impI)
    fix k
    assume k: "k < length (queue st)" and e: "status (queue st ! k) = Error"
    from retry_nth(1) [OF k e, of i] retry_nth(2) [OF k e]
    show "(itemId (queue st ! k) = i \<longrightarrow>
           queue (retrySingleItem i st) ! k
             = (queue st ! k)\<lparr>status := Pending, errorMsg := None\<rparr>) \<and>
        queue (retryAllErrors st) ! k = (queue st ! k)\<lparr>status := Pending, errorMsg := None\<rparr>"
      by (rule conjI)
  qed
qed
definition itemA :: QueueItem where
  "itemA = \<lparr>itemId = 0, prompt = ''a'', status = Done, imageUrl = Some ''u'',
            errorMsg = None, timestamp = ''t'', isEditing = None\<rparr>"

definition itemB :: QueueItem where
  "itemB = \<lparr>itemId = 1, prompt = ''b'', status = Error, imageUrl = None,
            errorMsg = Some ''rate limited'', timestamp = ''t'', isEditing = None\<rparr>"

definition itemC :: QueueItem where
  "itemC = \<lparr>itemId = 2, prompt = ''c'', status = Pending, imageUrl = None,
            errorMsg = None, timestamp = ''t'', isEditing = None\<rparr>"

definition itemD :: QueueItem where
  "itemD = \<lparr>itemId = 3, prompt = ''d'', status = Pending, imageUrl = None,
            errorMsg = None, timestamp = ''t'', isEditing = None\<rparr>"

definition mixed :: app where
  "mixed = (initial ''c'' [])\<lparr>queue := [itemA, itemB, itemC, itemD], nextUuid := 4\<rparr>"

theorem first_pending_is_claimed_and_retry_keeps_place_witness:
  "queue mixed = [itemA, itemB] @ itemC # [itemD] \<and>
   snd (claimNext (queue mixed)) = Some itemC \<and>
   fst (claimNext (queue mixed)) ! 2 = itemC\<lparr>status := Processing\<rparr> \<and>
   queue (retrySingleItem 1 mixed) ! 1 = itemB\<lparr>status := Pending, errorMsg := None\<rparr> \<and>
   queue (retryAllErrors mixed) ! 1 = itemB\<lparr>status := Pending, errorMsg := None\<rparr> \<and>
   map itemId (queue (retrySingleItem 1 mixed)) = [0, 1, 2, 3]"
proof -
  have q: "queue mixed = [itemA, itemB] @ itemC # [itemD]"
    by (simp add: mixed_def)
  have pre: "list_all (\<lambda>item. status item \<noteq> Pending) [itemA, itemB]"
    and p: "status itemC = Pending"
    by (simp_all add: itemA_def itemB_def itemC_def)
  have k: "1 < length (queue mixed)" and b: "queue mixed ! 1 = itemB"
    and e: "status itemB = Error" and i: "itemId itemB = 1"
    and ids: "map itemId (queue mixed) = [0, 1, 2, 3]"
    by (simp_all add: mixed_def itemA_def itemB_def itemC_def itemD_def)
  note T = first_pending_is_claimed_and_retry_keeps_place
      [of "queue mixed" "[itemA, itemB]" itemC "[itemD]" 1 mixed]
  from T q pre p have c: "snd (claimNext (queue mixed)) = Some itemC \<and>
      fst (claimNext (queue mixed)) ! length [itemA, itemB] = itemC\<lparr>status := Processing\<rparr>"
    by blast
  from T have "\<forall>k < length (queue mixed).
      status (queue mixed ! k) = Error \<longrightarrow>
        (itemId (queue mixed ! k) = 1 \<longrightarrow>
           queue (retrySingleItem 1 mixed) ! k
             = (queue mixed ! k)\<lparr>status := Pending, errorMsg := None\<rparr>) \<and>
        queue (retryAllErrors mixed) ! k = (queue mixed ! k)\<lparr>status := Pending, errorMsg := None\<rparr>"
    by blast
  with k have "status (queue mixed ! 1) = Error \<longrightarrow>
        (itemId (queue mixed ! 1) = 1 \<longrightarrow>
           queue (retrySingleItem 1 mixed) ! 1
             = (queue mixed ! 1)\<lparr>status := Pending, errorMsg := None\<rparr>) \<and>
        queue (retryAllErrors mixed) ! 1 = (queue mixed ! 1)\<lparr>status := Pending, errorMsg := None\<rparr>"
    by blast
  with b e i have r: "queue (retrySingleItem 1 mixed) ! 1
        = itemB\<lparr>status := Pending, errorMsg := None\<rparr> \<and>
      queue (retryAllErrors mixed) ! 1 = itemB\<lparr>status := Pending, errorMsg := None\<rparr>"
    by simp
  from T ids have m: "map itemId (queue (retrySingleItem 1 mixed)) = [0, 1, 2, 3]"
    by simp
  have two: "length [itemA, itemB] = 2" by simp
  from q c [unfolded two] r m show ?thesis by blast
qed

subsection \<open>Start while the loop runs\<close>

lemma step_ClickStart_queue:
  "queue (step (ClickStart now) st) =
     queue st @ (if cookie st = [] then []
                 else newItems (nextUuid st) now
                        (filter (\<lambda>line. length (trim line) > 0) (split_nl (promptsInput st))))"
  by (simp add: step_def syncRefs_def handleStart_def Let_def newItems_def)

lemma step_ClickStart_loops:
  "isProcessing (step (ClickStart now) st) = isProcessing st"
  "processingRef (step (ClickStart now) st) = isProcessing st"
  "awaiting (step (ClickStart now) st) = awaiting st"
  "looking (step (ClickStart now) st) = looking st"
  "nextTimers (step (ClickStart now) st) = nextTimers st"
  "retryTimers (step (ClickStart now) st) = retryTimers st"
  by (simp_all add: step_def syncRefs_def handleStart_def Let_def)

lemma step_StartTimeout_running:
  assumes "isProcessing st" and "processingRef st" and "pausedRef st = isPaused st"
  shows "step StartTimeout st = st\<lparr>startTimers := startTimers st - 1\<rparr>"
  using assms by (cases "startTimers st") (simp_all add: step_def syncRefs_def startTimeout_def)


lemma step_synced:
  "processingRef (step e st) = isProcessing (step e st)"
  "pausedRef (step e st) = isPaused (step e st)"
  unfolding step_def by (simp_all add: syncRefs_def)

text \<open>
  What holds of a click on Start while \<open>isProcessing\<close> is set: it appends the items of the
  lines that were typed, all pending, behind the items that were there, and touches
  neither the run flag nor any invocation of the loop; and if its timeout fires in the
  state the click left, the guard of line 115 finds \<open>processingRef\<close> set, so \<open>processQueue\<close>
  is not called: the state is the one before the timeout but for the timeout itself. This
  says nothing of a timeout that fires after another click.
\<close>

theorem start_timeout_blocked_while_flag_set:
  assumes "isProcessing st"
  shows "queue (step (ClickStart now) st) =
           queue st @ (if cookie st = [] then []
                       else newItems (nextUuid st) now
                              (filter (\<lambda>line. length (trim line) > 0)
                                 (split_nl (promptsInput st)))) \<and>
         list_all (\<lambda>item. status item = Pending)
           (newItems (nextUuid st) now
              (filter (\<lambda>line. length (trim line) > 0) (split_nl (promptsInput st)))) \<and>
         isProcessing (step (ClickStart now) st) \<and>
         awaiting (step (ClickStart now) st) = awaiting st \<and>
         looking (step (ClickStart now) st) = looking st \<and>
         nextTimers (step (ClickStart now) st) = nextTimers st \<and>
         retryTimers (step (ClickStart now) st) = retryTimers st \<and>
         step StartTimeout (step (ClickStart now) st) =
           (step (ClickStart now) st)\<lparr>startTimers := startTimers (step (ClickStart now) st) - 1\<rparr>"
proof (intro conjI)
  show "queue (step (ClickStart now) st) =
           queue st @ (if cookie st = [] then []
                       else newItems (nextUuid st) now
                              (filter (\<lambda>line. length (trim line) > 0)
                                 (split_nl (promptsInput st))))"
    by (rule step_ClickStart_queue)
  show "list_all (\<lambda>item. status item = Pending)
           (newItems (nextUuid st) now
              (filter (\<lambda>line. length (trim line) > 0) (split_nl (promptsInput st))))"
    by (simp add: newItems_def list_all_iff split_beta)
  show run: "isProcessing (step (ClickStart now) st)"
    using assms by (simp add: step_ClickStart_loops)
  show "awaiting (step (ClickStart now) st) = awaiting st"
    "looking (step (ClickStart now) st) = looking st"
    "nextTimers (step (ClickStart now) st) = nextTimers st"
    "retryTimers (step (ClickStart now) st) = retryTimers st"
    by (rule step_ClickStart_loops)+
  from run show "step StartTimeout (step (ClickStart now) st) =
           (step (ClickStart now) st)\<lparr>startTimers := startTimers (step (ClickStart now) st) - 1\<rparr>"
    by (intro step_StartTimeout_running) (simp_all add: step_synced)
qed

definition runningWithInput :: app where
  "runningWithInput = step (TypePrompts ''a dog'') onePrompt"

theorem start_timeout_blocked_while_flag_set_witness:
  "isProcessing runningWithInput \<and>
   map prompt (queue (step (ClickStart ''t'') runningWithInput)) = [''a cat'', ''a dog''] \<and>
   map status (queue (step StartTimeout (step (ClickStart ''t'') runningWithInput)))
     = [Processing, Pending] \<and>
   awaiting (step StartTimeout (step (ClickStart ''t'') runningWithInput))
     = awaiting runningWithInput"
proof -
  have r: "isProcessing runningWithInput"
    by (simp add: runningWithInput_def onePrompt_eval step_def syncRefs_def)
  have e: "step (ClickStart ''t'') runningWithInput =
      \<lparr>cookie = ''c'', aspectRatio = ''LANDSCAPE'', promptsInput = [],
       queue = [\<lparr>itemId = 0, prompt = ''a cat'', status = Processing, imageUrl = None,
                 errorMsg = None, timestamp = ''t'', isEditing = None\<rparr>,
                \<lparr>itemId = 1, prompt = ''a dog'', status = Pending, imageUrl = None,
                 errorMsg = None, timestamp = ''t'', isEditing = None\<rparr>],
       isProcessing = True, isPaused = False, processingRef = True, pausedRef = False,
       nextUuid = 2, startTimers = 1, retryTimers = 0, nextTimers = 0,
       awaiting = [\<lparr>itemId = 0, prompt = ''a cat'', status = Pending, imageUrl = None,
                    errorMsg = None, timestamp = ''t'', isEditing = None\<rparr>],
       looking = []\<rparr>"
    unfolding runningWithInput_def onePrompt_def by code_simp
  from start_timeout_blocked_while_flag_set [OF r, of "''t''"]
  have "awaiting (step (ClickStart ''t'') runningWithInput) = awaiting runningWithInput"
    and "step StartTimeout (step (ClickStart ''t'') runningWithInput) =
           (step (ClickStart ''t'') runningWithInput)
             \<lparr>startTimers := startTimers (step (ClickStart ''t'') runningWithInput) - 1\<rparr>"
    by blast+
  with r e show ?thesis by simp
qed

text \<open>
  C9 (a click on Start while the loop runs launches no second loop) fails on the code. The
  loop runs and waits for the server on \<open>a cat\<close>; \<open>a dog\<close> is typed and Start is clicked,
  which appends the item and schedules the timeout of line 114. Stop is clicked before the
  100 ms are over: \<open>handleStop\<close> clears \<open>processingRef\<close>, while the first invocation still
  waits. The timeout of the click on Start then passes the guard of line 115 and calls
  \<open>processQueue\<close>: a second invocation claims \<open>a dog\<close>, both items are \<open>processing\<close> and two
  requests are in flight. The guard reads a flag that does not tell whether an invocation
  is alive, the defect of C1.
\<close>

theorem second_loop_after_start_and_stop:
  "isProcessing runningWithInput \<and>
   map prompt (awaiting runningWithInput) = [''a cat''] \<and>
   map status (queue (run [ClickStart ''t'', ClickStop, StartTimeout] runningWithInput))
     = [Processing, Processing] \<and>
   map prompt (awaiting (run [ClickStart ''t'', ClickStop, StartTimeout] runningWithInput))
     = [''a cat'', ''a dog'']"
  unfolding runningWithInput_def onePrompt_def by code_simp

subsection \<open>Pause\<close>

text \<open>The events that clear \<open>isPaused\<close>: a click on Start or on Stop.\<close>

definition resumes :: "event \<Rightarrow> bool" where
  "resumes e = (case e of ClickStart now \<Rightarrow> True | ClickStop \<Rightarrow> True | _ \<Rightarrow> False)"

text \<open>
  No item of the second queue is \<open>processing\<close> unless an item of its id was \<open>processing\<close> in
  the first queue: nothing was claimed in between.
\<close>

definition noNewProcessing :: "QueueItem list \<Rightarrow> QueueItem list \<Rightarrow> bool" where
  "noNewProcessing q q' =
     list_all (\<lambda>x. status x \<noteq> Processing \<or>
                    list_ex (\<lambda>y. itemId y = itemId x \<and> status y = Processing) q) q'"

lemma noNewProcessing_iff:
  "noNewProcessing q q' \<longleftrightarrow>
     (\<forall>x \<in> set q'. status x = Processing \<longrightarrow>
        (\<exists>y \<in> set q. itemId y = itemId x \<and> status y = Processing))"
  unfolding noNewProcessing_def list_all_iff list_ex_iff by blast

lemma noNewProcessing_refl: "noNewProcessing q q"
  unfolding noNewProcessing_iff by blast

lemma noNewProcessing_trans:
  assumes "noNewProcessing q q'" and "noNewProcessing q' q''"
  shows "noNewProcessing q q''"
  unfolding noNewProcessing_iff
proof (intro ballI impI)
  fix x
  assume "x \<in> set q''" and "status x = Processing"
  with assms(2) obtain y where y: "y \<in> set q'" "itemId y = itemId x" "status y = Processing"
    unfolding noNewProcessing_iff by blast
  with assms(1) obtain z where "z \<in> set q" "itemId z = itemId y" "status z = Processing"
    unfolding noNewProcessing_iff by blast
  with y(2) show "\<exists>z \<in> set q. itemId z = itemId x \<and> status z = Processing"
    by auto
qed

lemma noNewProcessing_map:
  assumes "\<And>y. status (f y) = Processing \<Longrightarrow> status y = Processing \<and> itemId (f y) = itemId y"
  shows "noNewProcessing q (map f q)"
  unfolding noNewProcessing_iff
proof (intro ballI impI)
  fix x
  assume "x \<in> set (map f q)" and p: "status x = Processing"
  then obtain y where y: "y \<in> set q" and x: "x = f y" by auto
  from p x assms [of y] have "status y = Processing" "itemId y = itemId x" by simp_all
  with y show "\<exists>y \<in> set q. itemId y = itemId x \<and> status y = Processing" by blast
qed

lemma noNewProcessing_filter: "noNewProcessing q q' \<Longrightarrow> noNewProcessing q (filter P q')"
  unfolding noNewProcessing_iff by simp

lemma subseq_remove_nth: "subseq (take k xs @ drop (Suc k) xs) xs"
proof (induction xs arbitrary: k)
  case Nil
  then show ?case by simp
next
  case (Cons x xs)
  show ?case
  proof (cases k)
    case 0
    have "subseq xs (x # xs)" by (rule list_emb_Cons) simp
    with 0 show ?thesis by simp
  next
    case (Suc j)
    with Cons [of j] show ?thesis by simp
  qed
qed

lemma syncRefs_fields:
  "isPaused (syncRefs st) = isPaused st" "pausedRef (syncRefs st) = isPaused st"
  "isProcessing (syncRefs st) = isProcessing st" "processingRef (syncRefs st) = isProcessing st"
  "queue (syncRefs st) = queue st" "awaiting (syncRefs st) = awaiting st"
  "looking (syncRefs st) = looking st" "nextTimers (syncRefs st) = nextTimers st"
  "startTimers (syncRefs st) = startTimers st" "retryTimers (syncRefs st) = retryTimers st"
  by (simp_all add: syncRefs_def)

lemma noNewProcessing_writeBack: "noNewProcessing q (writeBack nextItem data q)"
  unfolding writeBack_def
  by (rule noNewProcessing_map) (cases data; simp split: if_splits)

lemma noNewProcessing_fetchLatest: "noNewProcessing q (fetchLatestImageFor i files q)"
proof (cases files)
  case (Files us)
  show ?thesis
  proof (cases us)
    case Nil
    with Files show ?thesis by (simp add: fetchLatestImageFor_none noNewProcessing_refl)
  next
    case (Cons u vs)
    have "noNewProcessing q (map (\<lambda>item. if itemId item = i \<and> status item = Done
                                           then item\<lparr>imageUrl := Some u\<rparr> else item) q)"
      by (rule noNewProcessing_map) (simp split: if_splits)
    with Files Cons show ?thesis by (simp add: fetchLatestImageFor_Cons)
  qed
next
  case ListingThrown
  then show ?thesis by (simp add: fetchLatestImageFor_none noNewProcessing_refl)
qed

lemma processNext_paused: "pausedRef st \<Longrightarrow> processNext st = st"
  by (simp add: processNext_def)

lemma timeouts_paused:
  assumes "pausedRef st"
  shows "queue (startTimeout st) = queue st" "awaiting (startTimeout st) = awaiting st"
    "isPaused (startTimeout st) = isPaused st"
    "queue (retryTimeout st) = queue st" "awaiting (retryTimeout st) = awaiting st"
    "isPaused (retryTimeout st) = isPaused st"
  using assms by (simp_all add: startTimeout_def retryTimeout_def processNext_paused)

lemma generateReturns_fields:
  "isPaused (generateReturns k data st) = isPaused st"
  "isProcessing (generateReturns k data st) = isProcessing st"
  "subseq (awaiting (generateReturns k data st)) (awaiting st)"
  "noNewProcessing (queue st) (queue (generateReturns k data st))"
  by (cases data; simp add: generateReturns_def Let_def subseq_remove_nth
        noNewProcessing_writeBack noNewProcessing_refl)+

lemma imagesReturn_fields:
  "isPaused (imagesReturn k files st) = isPaused st"
  "isProcessing (imagesReturn k files st) = isProcessing st"
  "awaiting (imagesReturn k files st) = awaiting st"
  "noNewProcessing (queue st) (queue (imagesReturn k files st))"
  by (simp_all add: imagesReturn_def noNewProcessing_fetchLatest noNewProcessing_refl)

lemma handlers_keep_flags:
  "isPaused (retrySingleItem i st) = isPaused st" "awaiting (retrySingleItem i st) = awaiting st"
  "isPaused (retryAllErrors st) = isPaused st" "awaiting (retryAllErrors st) = awaiting st"
  "isPaused (startEditingPrompt i st) = isPaused st"
  "awaiting (startEditingPrompt i st) = awaiting st"
  "isPaused (savePromptEdit i p st) = isPaused st"
  "awaiting (savePromptEdit i p st) = awaiting st"
  "isPaused (cancelEditingPrompt i st) = isPaused st"
  "awaiting (cancelEditingPrompt i st) = awaiting st"
  "isPaused (handleClearAll confirmed del st) = isPaused st"
  "awaiting (handleClearAll confirmed del st) = awaiting st"
  by (simp_all add: retrySingleItem_def retryAllErrors_def startEditingPrompt_def
        savePromptEdit_def cancelEditingPrompt_def handleClearAll_def Let_def
        split: deletion.splits)

lemma handlers_queue:
  "queue (retrySingleItem i st) =
     map (\<lambda>item. if itemId item = i then item\<lparr>status := Pending, errorMsg := None\<rparr>
                  else item) (queue st)"
  "queue (retryAllErrors st) =
     map (\<lambda>item. if status item = Error then item\<lparr>status := Pending, errorMsg := None\<rparr>
                  else item) (queue st)"
  "queue (startEditingPrompt i st) =
     map (\<lambda>item. if itemId item = i then item\<lparr>isEditing := Some True\<rparr> else item) (queue st)"
  "queue (savePromptEdit i p st) =
     map (\<lambda>item. if itemId item = i then item\<lparr>prompt := p, isEditing := Some False\<rparr>
                  else item) (queue st)"
  "queue (cancelEditingPrompt i st) =
     map (\<lambda>item. if itemId item = i then item\<lparr>isEditing := Some False\<rparr> else item) (queue st)"
  by (simp_all add: retrySingleItem_def retryAllErrors_def startEditingPrompt_def
        savePromptEdit_def cancelEditingPrompt_def Let_def)

lemma handlers_claim_nothing:
  "noNewProcessing (queue st) (queue (retrySingleItem i st))"
  "noNewProcessing (queue st) (queue (retryAllErrors st))"
  "noNewProcessing (queue st) (queue (startEditingPrompt i st))"
  "noNewProcessing (queue st) (queue (savePromptEdit i p st))"
  "noNewProcessing (queue st) (queue (cancelEditingPrompt i st))"
  unfolding handlers_queue
  by (rule noNewProcessing_map, simp split: if_splits)+

lemma clearAll_claims_nothing:
  "noNewProcessing (queue st) (queue (handleClearAll confirmed del st))"
proof (cases "confirmed \<and> del = Deleted")
  case True
  have "noNewProcessing (queue st)
          (map (\<lambda>item. item\<lparr>imageUrl := None,
                            status := (if status item = Done then Pending else status item)\<rparr>)
             (queue st))"
    by (rule noNewProcessing_map) (simp split: if_splits)
  with True show ?thesis
    by (simp add: handleClearAll_def noNewProcessing_filter)
next
  case False
  then show ?thesis
    by (cases del) (simp_all add: handleClearAll_def noNewProcessing_refl)
qed

lemma paused_step:
  assumes p: "isPaused st" and r: "pausedRef st" and e: "\<not> resumes e"
  shows "isPaused (step e st) \<and> pausedRef (step e st) \<and>
         subseq (awaiting (step e st)) (awaiting st) \<and>
         noNewProcessing (queue st) (queue (step e st))"
proof (cases e)
  case (ClickStart now)
  with e show ?thesis by (simp add: resumes_def)
next
  case ClickPause
  with p show ?thesis
    by (simp add: step_def syncRefs_fields handlePause_def noNewProcessing_refl)
next
  case ClickStop
  with e show ?thesis by (simp add: resumes_def)
next
  case (ClickRetry i)
  with p show ?thesis
    by (simp add: step_def syncRefs_fields handlers_keep_flags handlers_claim_nothing
          noNewProcessing_refl)
next
  case ClickRetryAll
  with p show ?thesis
    by (simp add: step_def syncRefs_fields handlers_keep_flags handlers_claim_nothing)
next
  case (StartEdit i)
  with p show ?thesis
    by (simp add: step_def syncRefs_fields handlers_keep_flags handlers_claim_nothing
          noNewProcessing_refl)
next
  case (SaveEdit i s)
  with p show ?thesis
    by (simp add: step_def syncRefs_fields handlers_keep_flags handlers_claim_nothing
          noNewProcessing_refl)
next
  case (CancelEdit i)
  with p show ?thesis
    by (simp add: step_def syncRefs_fields handlers_keep_flags handlers_claim_nothing
          noNewProcessing_refl)
next
  case (ClickClearAll confirmed del)
  with p show ?thesis
    by (simp add: step_def syncRefs_fields handlers_keep_flags clearAll_claims_nothing)
next
  case (TypePrompts s)
  with p show ?thesis by (simp add: step_def syncRefs_fields noNewProcessing_refl)
next
  case (TypeCookie s)
  with p show ?thesis by (simp add: step_def syncRefs_fields noNewProcessing_refl)
next
  case StartTimeout
  have "pausedRef (st\<lparr>startTimers := startTimers st - 1\<rparr>)" using r by simp
  note timeouts_paused(1-3) [OF this]
  with p StartTimeout show ?thesis
    by (simp add: step_def syncRefs_fields noNewProcessing_refl)
next
  case RetryTimeout
  have "pausedRef (st\<lparr>retryTimers := retryTimers st - 1\<rparr>)" using r by simp
  note timeouts_paused(4-6) [OF this]
  with p RetryTimeout show ?thesis
    by (simp add: step_def syncRefs_fields noNewProcessing_refl)
next
  case NextTimeout
  have "pausedRef (st\<lparr>nextTimers := nextTimers st - 1\<rparr>)" using r by simp
  note processNext_paused [OF this]
  with p NextTimeout show ?thesis
    by (simp add: step_def syncRefs_fields noNewProcessing_refl)
next
  case (GenerateReturns k data)
  with p show ?thesis
    by (simp add: step_def syncRefs_fields generateReturns_fields)
next
  case (ImagesReturn k files)
  with p show ?thesis
    by (simp add: step_def syncRefs_fields imagesReturn_fields)
qed

lemma paused_run:
  assumes "isPaused st" and "pausedRef st" and "list_all (\<lambda>e. \<not> resumes e) evs"
  shows "isPaused (run evs st) \<and> pausedRef (run evs st) \<and>
         subseq (awaiting (run evs st)) (awaiting st) \<and>
         noNewProcessing (queue st) (queue (run evs st))"
  using assms
proof (induction evs arbitrary: st)
  case Nil
  then show ?case by (simp add: noNewProcessing_refl)
next
  case (Cons e evs)
  from Cons.prems have e: "\<not> resumes e" and evs: "list_all (\<lambda>e. \<not> resumes e) evs"
    by simp_all
  from paused_step [OF Cons.prems(1,2) e]
  have s: "isPaused (step e st)" "pausedRef (step e st)"
    "subseq (awaiting (step e st)) (awaiting st)"
    "noNewProcessing (queue st) (queue (step e st))"
    by simp_all
  from Cons.IH [OF s(1,2) evs]
  have t: "isPaused (run evs (step e st))" "pausedRef (run evs (step e st))"
    "subseq (awaiting (run evs (step e st))) (awaiting (step e st))"
    "noNewProcessing (queue (step e st)) (queue (run evs (step e st)))"
    by simp_all
  from t(3) s(3) have "subseq (awaiting (run evs (step e st))) (awaiting st)"
    by (rule subseq_order.trans)
  moreover from s(4) t(4) have "noNewProcessing (queue st) (queue (run evs (step e st)))"
    by (rule noNewProcessing_trans)
  ultimately show ?case using t(1,2) by simp
qed

text \<open>The status that the write-back of an answer gives to the items of the claimed id.\<close>

definition outcome :: "response \<Rightarrow> status" where
  "outcome data = (case data of Success url \<Rightarrow> Done | Failure err \<Rightarrow> Error | Thrown msg \<Rightarrow> Error)"

lemma writeBack_outcome:
  assumes "x \<in> set (writeBack nextItem data q)" and "itemId x = itemId nextItem"
  shows "status x = outcome data"
proof -
  from assms(1) obtain y where y: "y \<in> set q"
    and x: "x = (if itemId y = itemId nextItem then
              (case data of
                 Success url \<Rightarrow>
                   y\<lparr>status := Done, imageUrl := Some (orElse url ''check_gallery'')\<rparr>
               | Failure err \<Rightarrow> y\<lparr>status := Error, errorMsg := err\<rparr>
               | Thrown msg \<Rightarrow>
                   y\<lparr>status := Error, errorMsg := Some (orElse msg ''Network Error'')\<rparr>)
            else y)"
    unfolding writeBack_def by auto
  show ?thesis
  proof (cases "itemId y = itemId nextItem")
    case True
    with x show ?thesis by (cases data) (simp_all add: outcome_def)
  next
    case False
    with x have "x = y" by simp
    with assms(2) False show ?thesis by simp
  qed
qed

lemma writeBack_itemId: "map itemId (writeBack nextItem data q) = map itemId q"
  unfolding writeBack_def
  by (cases data) (simp_all add: map_if_field del: map_map)

lemma generateReturns_queue:
  "k < length (awaiting st) \<Longrightarrow>
     queue (step (GenerateReturns k data) st) = writeBack (awaiting st ! k) data (queue st)"
  by (cases data) (simp_all add: step_def syncRefs_fields generateReturns_def Let_def)

lemma generateReturns_resolves:
  assumes "k < length (awaiting st)"
  shows "map itemId (queue (step (GenerateReturns k data) st)) = map itemId (queue st) \<and>
         list_all (\<lambda>x. itemId x = itemId (awaiting st ! k) \<longrightarrow> status x = outcome data)
           (queue (step (GenerateReturns k data) st))"
  unfolding generateReturns_queue [OF assms] list_all_iff
  using writeBack_outcome [of _ "awaiting st ! k" data "queue st"]
  by (simp add: writeBack_itemId)

lemma step_ClickPause:
  "isPaused (step ClickPause st)" "pausedRef (step ClickPause st)"
  "\<not> isProcessing (step ClickPause st)" "\<not> processingRef (step ClickPause st)"
  "awaiting (step ClickPause st) = awaiting st" "queue (step ClickPause st) = queue st"
  by (simp_all add: step_def syncRefs_def handlePause_def)

text \<open>
  C8: after a click on Pause, \<open>isPaused\<close> is set and \<open>isProcessing\<close> is cleared, the
  waiting invocations and the queue are the ones before the click, and \<open>processNext\<close>
  returns at its gates. As long as neither Start nor Stop is clicked,
  whatever else happens (timeouts, answers of the server, retries, edits), no invocation
  is added to the waiting ones and no item becomes \<open>processing\<close>. An invocation that waits
  for the server is not recalled: when its answer arrives, the items of the id it claimed
  are still in the queue and become \<open>done\<close> after a success and \<open>error\<close> otherwise.
\<close>

theorem pause_halts_intake_not_completion:
  assumes "list_all (\<lambda>e. \<not> resumes e) evs"
  shows "isPaused (step ClickPause st) \<and> \<not> isProcessing (step ClickPause st) \<and>
     processNext (step ClickPause st) = step ClickPause st \<and>
     awaiting (step ClickPause st) = awaiting st \<and>
     queue (step ClickPause st) = queue st \<and>
     subseq (awaiting (run evs (step ClickPause st))) (awaiting st) \<and>
     noNewProcessing (queue st) (queue (run evs (step ClickPause st))) \<and>
     (k < length (awaiting (run evs (step ClickPause st))) \<longrightarrow>
        map itemId (queue (step (GenerateReturns k data) (run evs (step ClickPause st))))
          = map itemId (queue (run evs (step ClickPause st))) \<and>
        list_all (\<lambda>x. itemId x = itemId (awaiting (run evs (step ClickPause st)) ! k)
                       \<longrightarrow> status x = outcome data)
          (queue (step (GenerateReturns k data) (run evs (step ClickPause st)))))"
proof (intro conjI)
  show "isPaused (step ClickPause st)" "\<not> isProcessing (step ClickPause st)"
    by (rule step_ClickPause)+
  show "processNext (step ClickPause st) = step ClickPause st"
    by (rule processNext_paused) (rule step_ClickPause)
  show "awaiting (step ClickPause st) = awaiting st" "queue (step ClickPause st) = queue st"
    by (rule step_ClickPause)+
  from paused_run [OF step_ClickPause(1,2) assms, of st]
  show "subseq (awaiting (run evs (step ClickPause st))) (awaiting st)"
    "noNewProcessing (queue st) (queue (run evs (step ClickPause st)))"
    by (simp_all add: step_ClickPause)
  show "k < length (awaiting (run evs (step ClickPause st))) \<longrightarrow>
        map itemId (queue (step (GenerateReturns k data) (run evs (step ClickPause st))))
          = map itemId (queue (run evs (step ClickPause st))) \<and>
        list_all (\<lambda>x. itemId x = itemId (awaiting (run evs (step ClickPause st)) ! k)
                       \<longrightarrow> status x = outcome data)
          (queue (step (GenerateReturns k data) (run evs (step ClickPause st))))"
    using generateReturns_resolves [of k "run evs (step ClickPause st)" data] by (rule impI)
qed

definition inFlight :: app where
  "inFlight = run [ClickStart ''t'', StartTimeout] twoPrompts"

definition whilePaused :: "event list" where
  "whilePaused = [NextTimeout, ClickRetryAll, RetryTimeout, SaveEdit 1 ''b2'']"

theorem pause_halts_intake_not_completion_witness:
  "list_all (\<lambda>e. \<not> resumes e) whilePaused \<and>
   map status (queue inFlight) = [Processing, Pending] \<and>
   isPaused (step ClickPause inFlight) \<and>
   map status (queue (run whilePaused (step ClickPause inFlight))) = [Processing, Pending] \<and>
   noNewProcessing (queue inFlight) (queue (run whilePaused (step ClickPause inFlight))) \<and>
   0 < length (awaiting (run whilePaused (step ClickPause inFlight))) \<and>
   map status (queue (step (GenerateReturns 0 (Failure (Some ''rate limited'')))
                        (run whilePaused (step ClickPause inFlight)))) = [Error, Pending] \<and>
   map itemId (queue (step (GenerateReturns 0 (Failure (Some ''rate limited'')))
                        (run whilePaused (step ClickPause inFlight))))
     = map itemId (queue (run whilePaused (step ClickPause inFlight)))"
proof -
  have h: "list_all (\<lambda>e. \<not> resumes e) whilePaused"
    by (simp add: whilePaused_def resumes_def)
  have a: "map status (queue inFlight) = [Processing, Pending]"
    unfolding inFlight_def twoPrompts_def by code_simp
  have b: "map status (queue (run whilePaused (step ClickPause inFlight)))
             = [Processing, Pending]"
    unfolding inFlight_def twoPrompts_def whilePaused_def by code_simp
  have c: "0 < length (awaiting (run whilePaused (step ClickPause inFlight)))"
    unfolding inFlight_def twoPrompts_def whilePaused_def by code_simp
  have d: "map status (queue (step (GenerateReturns 0 (Failure (Some ''rate limited'')))
                        (run whilePaused (step ClickPause inFlight)))) = [Error, Pending]"
    unfolding inFlight_def twoPrompts_def whilePaused_def by code_simp
  from pause_halts_intake_not_completion
         [OF h, of inFlight 0 "Failure (Some ''rate limited'')"] c
  have "isPaused (step ClickPause inFlight)"
    and "noNewProcessing (queue inFlight) (queue (run whilePaused (step ClickPause inFlight)))"
    and "map itemId (queue (step (GenerateReturns 0 (Failure (Some ''rate limited'')))
                        (run whilePaused (step ClickPause inFlight))))
          = map itemId (queue (run whilePaused (step ClickPause inFlight)))"
    by blast+
  with h a b c d show ?thesis by blast
qed

subsection \<open>The end of the loop\<close>

declare drain.simps [simp del]

lemma drain_StartTimeout:
  "0 < startTimers st \<Longrightarrow> drain generate images st = drain generate images (step StartTimeout st)"
  by (subst drain.simps) simp

lemma drain_RetryTimeout:
  "startTimers st = 0 \<Longrightarrow> 0 < retryTimers st \<Longrightarrow>
     drain generate images st = drain generate images (step RetryTimeout st)"
  by (subst drain.simps) simp

lemma drain_GenerateReturns:
  "startTimers st = 0 \<Longrightarrow> retryTimers st = 0 \<Longrightarrow> awaiting st = nextItem # others \<Longrightarrow>
     drain generate images st =
       drain generate images
         (step (GenerateReturns 0 (generate (cookie st) (prompt nextItem) (aspectRatio st))) st)"
  by (subst drain.simps) simp

lemma drain_ImagesReturn:
  "startTimers st = 0 \<Longrightarrow> retryTimers st = 0 \<Longrightarrow> awaiting st = [] \<Longrightarrow> looking st = i # others
     \<Longrightarrow> drain generate images st = drain generate images (step (ImagesReturn 0 (images i)) st)"
  by (subst drain.simps) simp

lemma drain_NextTimeout:
  "startTimers st = 0 \<Longrightarrow> retryTimers st = 0 \<Longrightarrow> awaiting st = [] \<Longrightarrow> looking st = []
     \<Longrightarrow> 0 < nextTimers st
     \<Longrightarrow> drain generate images st = drain generate images (step NextTimeout st)"
  by (subst drain.simps) simp

text \<open>Nothing is scheduled and no invocation of \<open>processNext\<close> waits: the loop has ended.\<close>

definition quiescent :: "app \<Rightarrow> bool" where
  "quiescent st \<longleftrightarrow> startTimers st = 0 \<and> retryTimers st = 0 \<and> nextTimers st = 0 \<and>
                    awaiting st = [] \<and> looking st = []"

lemma drain_quiescent_id: "quiescent st \<Longrightarrow> drain generate images st = st"
  by (subst drain.simps) (simp add: quiescent_def)

















definition succeeds :: "string \<Rightarrow> string \<Rightarrow> string \<Rightarrow> response" where
  "succeeds c p a = Success (Some (''http://localhost:5000/output/'' @ p @ ''.png''))"

definition noImages :: "nat \<Rightarrow> listing" where
  "noImages i = Files []"



subsection \<open>A cat and a dog\<close>

text \<open>What the lookup of the latest image leaves as the url of a \<open>done\<close> item of its id.\<close>

definition attach :: "listing \<Rightarrow> string option \<Rightarrow> string option" where
  "attach files old = (case files of Files (latest # _) \<Rightarrow> Some latest | _ \<Rightarrow> old)"

lemma fetchLatestImageFor_attach:
  "fetchLatestImageFor i files q =
     map (\<lambda>item. if itemId item = i \<and> status item = Done
                  then item\<lparr>imageUrl := attach files (imageUrl item)\<rparr> else item) q"
proof (cases files)
  case (Files us)
  show ?thesis
  proof (cases us)
    case Nil
    with Files show ?thesis
      by (simp add: fetchLatestImageFor_none attach_def map_idI)
  next
    case (Cons u vs)
    with Files show ?thesis
      by (simp add: fetchLatestImageFor_Cons attach_def)
  qed
next
  case ListingThrown
  then show ?thesis
    by (simp add: fetchLatestImageFor_none attach_def map_idI)
qed

text \<open>The two prompts of the scenario, typed on two lines.\<close>

definition catAndDog :: string where
  "catAndDog = ''a cat'' @ [newline] @ ''a dog''"

lemma catAndDog_lines:
  "filter (\<lambda>line. length (trim line) > 0) (split_nl catAndDog) = [''a cat'', ''a dog'']"
  "filter (\<lambda>line. trim line \<noteq> []) (split_nl catAndDog) = [''a cat'', ''a dog'']"
  "trim ''a cat'' = ''a cat''" "trim ''a dog'' = ''a dog''"
  by (simp_all add: catAndDog_def newline_def trim_def isSpace_def)

lemma scenario_start:
  assumes "c \<noteq> []"
  shows "step StartTimeout (step (ClickStart now) (initial c catAndDog)) =
     \<lparr>cookie = c, aspectRatio = ''LANDSCAPE'', promptsInput = [],
      queue = [\<lparr>itemId = 0, prompt = ''a cat'', status = Processing, imageUrl = None,
                errorMsg = None, timestamp = now, isEditing = None\<rparr>,
               \<lparr>itemId = 1, prompt = ''a dog'', status = Pending, imageUrl = None,
                errorMsg = None, timestamp = now, isEditing = None\<rparr>],
      isProcessing = True, isPaused = False, processingRef = True, pausedRef = False,
      nextUuid = 2, startTimers = 0, retryTimers = 0, nextTimers = 0,
      awaiting = [\<lparr>itemId = 0, prompt = ''a cat'', status = Pending, imageUrl = None,
                   errorMsg = None, timestamp = now, isEditing = None\<rparr>],
      looking = []\<rparr>"
    and "startTimers (step (ClickStart now) (initial c catAndDog)) = 1"
proof -
  have s1: "step (ClickStart now) (initial c catAndDog) =
     \<lparr>cookie = c, aspectRatio = ''LANDSCAPE'', promptsInput = [],
      queue = [\<lparr>itemId = 0, prompt = ''a cat'', status = Pending, imageUrl = None,
                errorMsg = None, timestamp = now, isEditing = None\<rparr>,
               \<lparr>itemId = 1, prompt = ''a dog'', status = Pending, imageUrl = None,
                errorMsg = None, timestamp = now, isEditing = None\<rparr>],
      isProcessing = False, isPaused = False, processingRef = False, pausedRef = False,
      nextUuid = 2, startTimers = 1, retryTimers = 0, nextTimers = 0,
      awaiting = [], looking = []\<rparr>"
    using assms
    by (simp add: step_def syncRefs_def handleStart_def Let_def initial_def catAndDog_lines
          newItems_def hasPending_def)
  show "startTimers (step (ClickStart now) (initial c catAndDog)) = 1"
    by (simp add: s1)
  show "step StartTimeout (step (ClickStart now) (initial c catAndDog)) =
     \<lparr>cookie = c, aspectRatio = ''LANDSCAPE'', promptsInput = [],
      queue = [\<lparr>itemId = 0, prompt = ''a cat'', status = Processing, imageUrl = None,
                errorMsg = None, timestamp = now, isEditing = None\<rparr>,
               \<lparr>itemId = 1, prompt = ''a dog'', status = Pending, imageUrl = None,
                errorMsg = None, timestamp = now, isEditing = None\<rparr>],
      isProcessing = True, isPaused = False, processingRef = True, pausedRef = False,
      nextUuid = 2, startTimers = 0, retryTimers = 0, nextTimers = 0,
      awaiting = [\<lparr>itemId = 0, prompt = ''a cat'', status = Pending, imageUrl = None,
                   errorMsg = None, timestamp = now, isEditing = None\<rparr>],
      looking = []\<rparr>"
    unfolding s1
    by (simp add: step_def syncRefs_def startTimeout_def processNext_def claimNext_def)
qed
text \<open>The states that the scenario goes through, one per callback.\<close>

definition claimedCat :: "string \<Rightarrow> string \<Rightarrow> app" where
  "claimedCat c now =
     \<lparr>cookie = c, aspectRatio = ''LANDSCAPE'', promptsInput = [],
      queue = [\<lparr>itemId = 0, prompt = ''a cat'', status = Processing, imageUrl = None,
           errorMsg = None, timestamp = now, isEditing = None\<rparr>,
          \<lparr>itemId = 1, prompt = ''a dog'', status = Pending, imageUrl = None,
           errorMsg = None, timestamp = now, isEditing = None\<rparr>],
      isProcessing = True, isPaused = False, processingRef = True, pausedRef = False,
      nextUuid = 2, startTimers = 0, retryTimers = 0, nextTimers = 0,
      awaiting = [\<lparr>itemId = 0, prompt = ''a cat'', status = Pending, imageUrl = None,
           errorMsg = None, timestamp = now, isEditing = None\<rparr>],
      looking = []\<rparr>"

definition catDone :: "string \<Rightarrow> string \<Rightarrow> string option \<Rightarrow> app" where
  "catDone c now url =
     \<lparr>cookie = c, aspectRatio = ''LANDSCAPE'', promptsInput = [],
      queue = [\<lparr>itemId = 0, prompt = ''a cat'', status = Done, imageUrl = Some (orElse url ''check_gallery''),
           errorMsg = None, timestamp = now, isEditing = None\<rparr>,
          \<lparr>itemId = 1, prompt = ''a dog'', status = Pending, imageUrl = None,
           errorMsg = None, timestamp = now, isEditing = None\<rparr>],
      isProcessing = True, isPaused = False, processingRef = True, pausedRef = False,
      nextUuid = 2, startTimers = 0, retryTimers = 0, nextTimers = 0,
      awaiting = [],
      looking = [0]\<rparr>"

definition catLinked :: "string \<Rightarrow> string \<Rightarrow> string option \<Rightarrow> listing \<Rightarrow> app" where
  "catLinked c now url files =
     \<lparr>cookie = c, aspectRatio = ''LANDSCAPE'', promptsInput = [],
      queue = [\<lparr>itemId = 0, prompt = ''a cat'', status = Done, imageUrl = attach files (Some (orElse url ''check_gallery'')),
           errorMsg = None, timestamp = now, isEditing = None\<rparr>,
          \<lparr>itemId = 1, prompt = ''a dog'', status = Pending, imageUrl = None,
           errorMsg = None, timestamp = now, isEditing = None\<rparr>],
      isProcessing = True, isPaused = False, processingRef = True, pausedRef = False,
      nextUuid = 2, startTimers = 0, retryTimers = 0, nextTimers = 1,
      awaiting = [],
      looking = []\<rparr>"

definition claimedDog :: "string \<Rightarrow> string \<Rightarrow> string option \<Rightarrow> listing \<Rightarrow> app" where
  "claimedDog c now url files =
     \<lparr>cookie = c, aspectRatio = ''LANDSCAPE'', promptsInput = [],
      queue = [\<lparr>itemId = 0, prompt = ''a cat'', status = Done, imageUrl = attach files (Some (orElse url ''check_gallery'')),
           errorMsg = None, timestamp = now, isEditing = None\<rparr>,
          \<lparr>itemId = 1, prompt = ''a dog'', status = Processing, imageUrl = None,
           errorMsg = None, timestamp = now, isEditing = None\<rparr>],
      isProcessing = True, isPaused = False, processingRef = True, pausedRef = False,
      nextUuid = 2, startTimers = 0, retryTimers = 0, nextTimers = 0,
      awaiting = [\<lparr>itemId = 1, prompt = ''a dog'', status = Pending, imageUrl = None,
           errorMsg = None, timestamp = now, isEditing = None\<rparr>],
      looking = []\<rparr>"

definition dogFailed :: "string \<Rightarrow> string \<Rightarrow> string option \<Rightarrow> listing \<Rightarrow> app" where
  "dogFailed c now url files =
     \<lparr>cookie = c, aspectRatio = ''LANDSCAPE'', promptsInput = [],
      queue = [\<lparr>itemId = 0, prompt = ''a cat'', status = Done, imageUrl = attach files (Some (orElse url ''check_gallery'')),
           errorMsg = None, timestamp = now, isEditing = None\<rparr>,
          \<lparr>itemId = 1, prompt = ''a dog'', status = Error, imageUrl = None,
           errorMsg = Some ''rate limited'', timestamp = now, isEditing = None\<rparr>],
      isProcessing = True, isPaused = False, processingRef = True, pausedRef = False,
      nextUuid = 2, startTimers = 0, retryTimers = 0, nextTimers = 1,
      awaiting = [],
      looking = []\<rparr>"

definition firstDrain :: "string \<Rightarrow> string \<Rightarrow> string option \<Rightarrow> listing \<Rightarrow> app" where
  "firstDrain c now url files =
     \<lparr>cookie = c, aspectRatio = ''LANDSCAPE'', promptsInput = [],
      queue = [\<lparr>itemId = 0, prompt = ''a cat'', status = Done, imageUrl = attach files (Some (orElse url ''check_gallery'')),
           errorMsg = None, timestamp = now, isEditing = None\<rparr>,
          \<lparr>itemId = 1, prompt = ''a dog'', status = Error, imageUrl = None,
           errorMsg = Some ''rate limited'', timestamp = now, isEditing = None\<rparr>],
      isProcessing = False, isPaused = False, processingRef = False, pausedRef = False,
      nextUuid = 2, startTimers = 0, retryTimers = 0, nextTimers = 0,
      awaiting = [],
      looking = []\<rparr>"

definition dogRetried :: "string \<Rightarrow> string \<Rightarrow> string option \<Rightarrow> listing \<Rightarrow> app" where
  "dogRetried c now url files =
     \<lparr>cookie = c, aspectRatio = ''LANDSCAPE'', promptsInput = [],
      queue = [\<lparr>itemId = 0, prompt = ''a cat'', status = Done, imageUrl = attach files (Some (orElse url ''check_gallery'')),
           errorMsg = None, timestamp = now, isEditing = None\<rparr>,
          \<lparr>itemId = 1, prompt = ''a dog'', status = Pending, imageUrl = None,
           errorMsg = None, timestamp = now, isEditing = None\<rparr>],
      isProcessing = False, isPaused = False, processingRef = False, pausedRef = False,
      nextUuid = 2, startTimers = 0, retryTimers = 1, nextTimers = 0,
      awaiting = [],
      looking = []\<rparr>"

definition reclaimedDog :: "string \<Rightarrow> string \<Rightarrow> string option \<Rightarrow> listing \<Rightarrow> app" where
  "reclaimedDog c now url files =
     \<lparr>cookie = c, aspectRatio = ''LANDSCAPE'', promptsInput = [],
      queue = [\<lparr>itemId = 0, prompt = ''a cat'', status = Done, imageUrl = attach files (Some (orElse url ''check_gallery'')),
           errorMsg = None, timestamp = now, isEditing = None\<rparr>,
          \<lparr>itemId = 1, prompt = ''a dog'', status = Processing, imageUrl = None,
           errorMsg = None, timestamp = now, isEditing = None\<rparr>],
      isProcessing = True, isPaused = False, processingRef = True, pausedRef = False,
      nextUuid = 2, startTimers = 0, retryTimers = 0, nextTimers = 0,
      awaiting = [\<lparr>itemId = 1, prompt = ''a dog'', status = Pending, imageUrl = None,
           errorMsg = None, timestamp = now, isEditing = None\<rparr>],
      looking = []\<rparr>"

definition dogDone :: "string \<Rightarrow> string \<Rightarrow> string option \<Rightarrow> listing \<Rightarrow> string option \<Rightarrow> app" where
  "dogDone c now url files url2 =
     \<lparr>cookie = c, aspectRatio = ''LANDSCAPE'', promptsInput = [],
      queue = [\<lparr>itemId = 0, prompt = ''a cat'', status = Done, imageUrl = attach files (Some (orElse url ''check_gallery'')),
           errorMsg = None, timestamp = now, isEditing = None\<rparr>,
          \<lparr>itemId = 1, prompt = ''a dog'', status = Done, imageUrl = Some (orElse url2 ''check_gallery''),
           errorMsg = None, timestamp = now, isEditing = None\<rparr>],
      isProcessing = True, isPaused = False, processingRef = True, pausedRef = False,
      nextUuid = 2, startTimers = 0, retryTimers = 0, nextTimers = 0,
      awaiting = [],
      looking = [1]\<rparr>"

definition dogLinked :: "string \<Rightarrow> string \<Rightarrow> string option \<Rightarrow> listing \<Rightarrow> string option \<Rightarrow> listing \<Rightarrow> app" where
  "dogLinked c now url files url2 files2 =
     \<lparr>cookie = c, aspectRatio = ''LANDSCAPE'', promptsInput = [],
      queue = [\<lparr>itemId = 0, prompt = ''a cat'', status = Done, imageUrl = attach files (Some (orElse url ''check_gallery'')),
           errorMsg = None, timestamp = now, isEditing = None\<rparr>,
          \<lparr>itemId = 1, prompt = ''a dog'', status = Done, imageUrl = attach files2 (Some (orElse url2 ''check_gallery'')),
           errorMsg = None, timestamp = now, isEditing = None\<rparr>],
      isProcessing = True, isPaused = False, processingRef = True, pausedRef = False,
      nextUuid = 2, startTimers = 0, retryTimers = 0, nextTimers = 1,
      awaiting = [],
      looking = []\<rparr>"

definition secondDrain :: "string \<Rightarrow> string \<Rightarrow> string option \<Rightarrow> listing \<Rightarrow> string option \<Rightarrow> listing \<Rightarrow> app" where
  "secondDrain c now url files url2 files2 =
     \<lparr>cookie = c, aspectRatio = ''LANDSCAPE'', promptsInput = [],
      queue = [\<lparr>itemId = 0, prompt = ''a cat'', status = Done, imageUrl = attach files (Some (orElse url ''check_gallery'')),
           errorMsg = None, timestamp = now, isEditing = None\<rparr>,
          \<lparr>itemId = 1, prompt = ''a dog'', status = Done, imageUrl = attach files2 (Some (orElse url2 ''check_gallery'')),
           errorMsg = None, timestamp = now, isEditing = None\<rparr>],
      isProcessing = False, isPaused = False, processingRef = False, pausedRef = False,
      nextUuid = 2, startTimers = 0, retryTimers = 0, nextTimers = 0,
      awaiting = [],
      looking = []\<rparr>"

lemma scenario_steps:
  "step (GenerateReturns 0 (Success url)) (claimedCat c now) = catDone c now url"
  "step (ImagesReturn 0 files) (catDone c now url) = catLinked c now url files"
  "step NextTimeout (catLinked c now url files) = claimedDog c now url files"
  "step (GenerateReturns 0 (Failure (Some ''rate limited''))) (claimedDog c now url files)
     = dogFailed c now url files"
  "step (GenerateReturns 0 (Thrown (Some ''rate limited''))) (claimedDog c now url files)
     = dogFailed c now url files"
  "step NextTimeout (dogFailed c now url files) = firstDrain c now url files"
  "step (ClickRetry 1) (firstDrain c now url files) = dogRetried c now url files"
  "step RetryTimeout (dogRetried c now url files) = reclaimedDog c now url files"
  "step (GenerateReturns 0 (Success url2)) (reclaimedDog c now url files)
     = dogDone c now url files url2"
  "step (ImagesReturn 0 files2) (dogDone c now url files url2)
     = dogLinked c now url files url2 files2"
  "step NextTimeout (dogLinked c now url files url2 files2)
     = secondDrain c now url files url2 files2"
  by (simp_all add: claimedCat_def catDone_def catLinked_def claimedDog_def dogFailed_def
        firstDrain_def dogRetried_def reclaimedDog_def dogDone_def dogLinked_def
        secondDrain_def step_def syncRefs_def generateReturns_def Let_def writeBack_def
        imagesReturn_def fetchLatestImageFor_attach processNext_def claimNext_def
        retryShown_def retrySingleItem_def retryTimeout_def orElse_def)

lemma scenario_fields:
  "startTimers (claimedCat c now) = 0" "retryTimers (claimedCat c now) = 0"
  "awaiting (claimedCat c now) =
     [\<lparr>itemId = 0, prompt = ''a cat'', status = Pending, imageUrl = None,
       errorMsg = None, timestamp = now, isEditing = None\<rparr>]"
  "cookie (claimedCat c now) = c" "aspectRatio (claimedCat c now) = ''LANDSCAPE''"
  "startTimers (catDone c now url) = 0" "retryTimers (catDone c now url) = 0"
  "awaiting (catDone c now url) = []" "looking (catDone c now url) = [0]"
  "startTimers (catLinked c now url files) = 0" "retryTimers (catLinked c now url files) = 0"
  "awaiting (catLinked c now url files) = []" "looking (catLinked c now url files) = []"
  "nextTimers (catLinked c now url files) = 1"
  "startTimers (claimedDog c now url files) = 0" "retryTimers (claimedDog c now url files) = 0"
  "awaiting (claimedDog c now url files) =
     [\<lparr>itemId = 1, prompt = ''a dog'', status = Pending, imageUrl = None,
       errorMsg = None, timestamp = now, isEditing = None\<rparr>]"
  "cookie (claimedDog c now url files) = c"
  "aspectRatio (claimedDog c now url files) = ''LANDSCAPE''"
  "startTimers (dogFailed c now url files) = 0" "retryTimers (dogFailed c now url files) = 0"
  "awaiting (dogFailed c now url files) = []" "looking (dogFailed c now url files) = []"
  "nextTimers (dogFailed c now url files) = 1"
  "quiescent (firstDrain c now url files)"
  "startTimers (dogRetried c now url files) = 0" "retryTimers (dogRetried c now url files) = 1"
  "startTimers (reclaimedDog c now url files) = 0"
  "retryTimers (reclaimedDog c now url files) = 0"
  "awaiting (reclaimedDog c now url files) =
     [\<lparr>itemId = 1, prompt = ''a dog'', status = Pending, imageUrl = None,
       errorMsg = None, timestamp = now, isEditing = None\<rparr>]"
  "cookie (reclaimedDog c now url files) = c"
  "aspectRatio (reclaimedDog c now url files) = ''LANDSCAPE''"
  "startTimers (dogDone c now url files url2) = 0"
  "retryTimers (dogDone c now url files url2) = 0"
  "awaiting (dogDone c now url files url2) = []" "looking (dogDone c now url files url2) = [1]"
  "startTimers (dogLinked c now url files url2 files2) = 0"
  "retryTimers (dogLinked c now url files url2 files2) = 0"
  "awaiting (dogLinked c now url files url2 files2) = []"
  "looking (dogLinked c now url files url2 files2) = []"
  "nextTimers (dogLinked c now url files url2 files2) = 1"
  "quiescent (secondDrain c now url files url2 files2)"
  by (simp_all add: claimedCat_def catDone_def catLinked_def claimedDog_def dogFailed_def
        firstDrain_def dogRetried_def reclaimedDog_def dogDone_def dogLinked_def
        secondDrain_def quiescent_def)

lemma scenario_first_drain:
  assumes c: "c \<noteq> []"
    and cat: "generate c ''a cat'' ''LANDSCAPE'' = Success url"
    and dog: "generate c ''a dog'' ''LANDSCAPE'' = Failure (Some ''rate limited'') \<or>
              generate c ''a dog'' ''LANDSCAPE'' = Thrown (Some ''rate limited'')"
  shows "drain generate images (step (ClickStart now) (initial c catAndDog))
           = firstDrain c now url (images 0)"
proof -
  have "drain generate images (step (ClickStart now) (initial c catAndDog))
          = drain generate images (claimedCat c now)"
    using scenario_start [OF c, of now]
    by (simp add: drain_StartTimeout claimedCat_def)
  also have "\<dots> = drain generate images (catDone c now url)"
    by (simp add: drain_GenerateReturns [where nextItem = "hd (awaiting (claimedCat c now))"
                    and others = "[]"] scenario_fields cat scenario_steps)
  also have "\<dots> = drain generate images (catLinked c now url (images 0))"
    by (simp add: drain_ImagesReturn [where i = 0 and others = "[]"] scenario_fields
          scenario_steps)
  also have "\<dots> = drain generate images (claimedDog c now url (images 0))"
    by (simp add: drain_NextTimeout scenario_fields scenario_steps)
  also have "\<dots> = drain generate images (dogFailed c now url (images 0))"
    using dog
    by (auto simp: drain_GenerateReturns
          [where nextItem = "hd (awaiting (claimedDog c now url (images 0)))" and others = "[]"]
          scenario_fields scenario_steps)
  also have "\<dots> = drain generate images (firstDrain c now url (images 0))"
    by (simp add: drain_NextTimeout scenario_fields scenario_steps)
  also have "\<dots> = firstDrain c now url (images 0)"
    by (simp add: drain_quiescent_id scenario_fields)
  finally show ?thesis .
qed

lemma scenario_second_drain:
  assumes dog: "again c ''a dog'' ''LANDSCAPE'' = Success url2"
  shows "drain again images2 (step (ClickRetry 1) (firstDrain c now url files))
           = secondDrain c now url files url2 (images2 1)"
proof -
  have "drain again images2 (step (ClickRetry 1) (firstDrain c now url files))
          = drain again images2 (dogRetried c now url files)"
    by (simp only: scenario_steps)
  also have "\<dots> = drain again images2 (reclaimedDog c now url files)"
    by (simp add: drain_RetryTimeout scenario_fields scenario_steps)
  also have "\<dots> = drain again images2 (dogDone c now url files url2)"
    by (simp add: drain_GenerateReturns
          [where nextItem = "hd (awaiting (reclaimedDog c now url files))" and others = "[]"]
          scenario_fields dog scenario_steps)
  also have "\<dots> = drain again images2 (dogLinked c now url files url2 (images2 1))"
    by (simp add: drain_ImagesReturn [where i = 1 and others = "[]"] scenario_fields
          scenario_steps)
  also have "\<dots> = drain again images2 (secondDrain c now url files url2 (images2 1))"
    by (simp add: drain_NextTimeout scenario_fields scenario_steps)
  also have "\<dots> = secondDrain c now url files url2 (images2 1)"
    by (simp add: drain_quiescent_id scenario_fields)
  finally show ?thesis .
qed

text \<open>
  The scenario: Start is clicked with the two prompts typed in and the loop runs to its
  end; then Retry is clicked on the second item and the loop runs to its end again, with
  a server that may answer differently.
\<close>

definition firstRun :: "(string \<Rightarrow> string \<Rightarrow> string \<Rightarrow> response) \<Rightarrow> (nat \<Rightarrow> listing) \<Rightarrow> string \<Rightarrow> string \<Rightarrow> app" where
  "firstRun generate images c now =
     drain generate images (step (ClickStart now) (initial c catAndDog))"

definition retrySecond :: "(string \<Rightarrow> string \<Rightarrow> string \<Rightarrow> response) \<Rightarrow> (nat \<Rightarrow> listing) \<Rightarrow> app \<Rightarrow> app" where
  "retrySecond generate images st =
     drain generate images (step (ClickRetry (itemId (queue st ! 1))) st)"

definition summary :: "app \<Rightarrow> (string \<times> status \<times> string option) list" where
  "summary st = map (\<lambda>item. (prompt item, status item, errorMsg item)) (queue st)"

text \<open>
  C2: with a cookie entered, a server that succeeds for \<open>a cat\<close> and fails for \<open>a dog\<close>
  with the message \<open>rate limited\<close> (as an answer without \<open>success\<close>, or as an exception),
  the first run ends with the cat \<open>done\<close> and the dog in \<open>error\<close> with that message, and the
  run flag cleared; after Retry on the dog and a success, both are \<open>done\<close>.
\<close>

theorem cat_and_dog_scenario:
  assumes "c \<noteq> []"
    and "generate c ''a cat'' ''LANDSCAPE'' = Success url"
    and "generate c ''a dog'' ''LANDSCAPE'' = Failure (Some ''rate limited'') \<or>
         generate c ''a dog'' ''LANDSCAPE'' = Thrown (Some ''rate limited'')"
    and "again c ''a dog'' ''LANDSCAPE'' = Success url'"
  shows "summary (firstRun generate images c now)
           = [(''a cat'', Done, None), (''a dog'', Error, Some ''rate limited'')] \<and>
         \<not> isProcessing (firstRun generate images c now) \<and>
         summary (retrySecond again images' (firstRun generate images c now))
           = [(''a cat'', Done, None), (''a dog'', Done, None)] \<and>
         \<not> isProcessing (retrySecond again images' (firstRun generate images c now))"
proof -
  have f: "firstRun generate images c now = firstDrain c now url (images 0)"
    unfolding firstRun_def using assms(1-3) by (rule scenario_first_drain)
  have i: "itemId (queue (firstDrain c now url (images 0)) ! 1) = 1"
    by (simp add: firstDrain_def)
  have s: "retrySecond again images' (firstDrain c now url (images 0))
             = secondDrain c now url (images 0) url' (images' 1)"
    unfolding retrySecond_def i using assms(4) by (rule scenario_second_drain)
  show ?thesis
    unfolding f s by (simp add: summary_def firstDrain_def secondDrain_def)
qed

definition failsForDog :: "string \<Rightarrow> string \<Rightarrow> string \<Rightarrow> response" where
  "failsForDog c p a =
     (if p = ''a dog'' then Failure (Some ''rate limited'') else succeeds c p a)"

theorem cat_and_dog_scenario_witness:
  "failsForDog ''c'' ''a cat'' ''LANDSCAPE''
     = Success (Some ''http://localhost:5000/output/a cat.png'') \<and>
   failsForDog ''c'' ''a dog'' ''LANDSCAPE'' = Failure (Some ''rate limited'') \<and>
   succeeds ''c'' ''a dog'' ''LANDSCAPE''
     = Success (Some ''http://localhost:5000/output/a dog.png'') \<and>
   summary (firstRun failsForDog noImages ''c'' ''t'')
     = [(''a cat'', Done, None), (''a dog'', Error, Some ''rate limited'')] \<and>
   summary (retrySecond succeeds noImages (firstRun failsForDog noImages ''c'' ''t''))
     = [(''a cat'', Done, None), (''a dog'', Done, None)]"
proof -
  have c: "''c'' \<noteq> []" by simp
  have g: "failsForDog ''c'' ''a cat'' ''LANDSCAPE''
             = Success (Some ''http://localhost:5000/output/a cat.png'')"
    and d: "failsForDog ''c'' ''a dog'' ''LANDSCAPE'' = Failure (Some ''rate limited'')"
    and a: "succeeds ''c'' ''a dog'' ''LANDSCAPE''
             = Success (Some ''http://localhost:5000/output/a dog.png'')"
    by (simp_all add: failsForDog_def succeeds_def)
  from d have d': "failsForDog ''c'' ''a dog'' ''LANDSCAPE'' = Failure (Some ''rate limited'') \<or>
      failsForDog ''c'' ''a dog'' ''LANDSCAPE'' = Thrown (Some ''rate limited'')" ..
  note cat_and_dog_scenario
    [where c = "''c''" and generate = failsForDog and again = succeeds
       and url = "Some ''http://localhost:5000/output/a cat.png''"
       and url' = "Some ''http://localhost:5000/output/a dog.png''"
       and images = noImages and images' = noImages and now = "''t''"]
  from this [OF c g d' a] g d a show ?thesis by blast
qed

end
